theory Spec2Isabelle
  imports Main
begin

section \<open>Query types and validation\<close>

text \<open>
  The members of the \<open>QueryType\<close> table that \<open>SpotifyExtractor.ts\<close> names, and one
  constructor for every other value a caller may pass. The table itself lives in the
  \<open>discord-player\<close> package; the extractor only compares its members with \<open>===\<close>.
  The string literal \<open>'spotifySong'\<close> of the fallback normalisers is taken to be the
  value of \<open>QueryType.SPOTIFY_SONG\<close> and is rendered as \<open>SPOTIFY_SONG\<close>.
\<close>

datatype query_type =
    AUTO
  | AUTO_SEARCH
  | SPOTIFY_SEARCH
  | SPOTIFY_SONG
  | SPOTIFY_PLAYLIST
  | SPOTIFY_ALBUM
  | OtherQueryType string

text \<open>
  \<open>validate(query, type)\<close>: \<open>type\<close> is \<open>SearchQueryType | null | undefined\<close>, here an
  option. \<open>Array.prototype.some\<close> is \<open>list_ex\<close>.
\<close>

definition validate :: "string \<Rightarrow> query_type option \<Rightarrow> bool" where
  "validate query type =
     list_ex (\<lambda>t. Some t = type)
       [SPOTIFY_ALBUM, SPOTIFY_PLAYLIST, SPOTIFY_SONG, SPOTIFY_SEARCH, AUTO, AUTO_SEARCH]"

section \<open>The URL pattern and \<open>parse\<close>\<close>

text \<open>
  \<open>parse\<close> runs one regular expression with \<open>RegExp.prototype.exec\<close>. The pattern is
  kept as a syntax tree, and matching follows the backtracking semantics of ECMAScript:
  a matcher takes a continuation and a state (the rest of the input and the captures so
  far) and gives the first successful result, or \<open>None\<close> for failure. Strings are lists
  of 8-bit characters, so of the four line terminators that \<open>.\<close> excludes only line feed
  and carriage return exist here.
\<close>

type_synonym captures = "nat \<Rightarrow> string option"
type_synonym mstate = "string \<times> captures"
type_synonym cont = "mstate \<Rightarrow> mstate option"

datatype rx =
    Bol                          \<comment> \<open>\<open>^\<close>\<close>
  | Eol                          \<comment> \<open>\<open>$\<close>\<close>
  | Lit string                   \<comment> \<open>literal characters\<close>
  | Cls "(char \<times> char) list"      \<comment> \<open>a class, as its ranges: \<open>[A-Za-z0-9]\<close>\<close>
  | Dot                          \<comment> \<open>\<open>.\<close>\<close>
  | Seq rx rx
  | Alt rx rx                    \<comment> \<open>\<open>a|b\<close>\<close>
  | Opt rx                       \<comment> \<open>\<open>a?\<close>\<close>
  | Upto nat rx                  \<comment> \<open>\<open>a{0,n}\<close>\<close>
  | Star rx                      \<comment> \<open>\<open>a*\<close>\<close>
  | Plus rx                      \<comment> \<open>\<open>a+\<close>\<close>
  | Grp nat rx                   \<comment> \<open>capturing group number \<open>i\<close>\<close>

definition in_class :: "(char \<times> char) list \<Rightarrow> char \<Rightarrow> bool" where
  "in_class rs x =
     list_ex (\<lambda>(lo, hi). (of_char lo :: nat) \<le> of_char x \<and> (of_char x :: nat) \<le> of_char hi) rs"

definition line_terminator :: "char \<Rightarrow> bool" where
  "line_terminator x = (x = CHR 0x0A \<or> x = CHR 0x0D)"

text \<open>
  Greedy repetition, at most \<open>n\<close> times: one more iteration is tried before the
  continuation. \<open>a*\<close> is run with the length of the remaining input as its bound, which
  loses nothing: ECMAScript rejects an iteration that consumes no character.
\<close>

primrec upto :: "nat \<Rightarrow> (cont \<Rightarrow> cont) \<Rightarrow> cont \<Rightarrow> cont" where
  "upto 0 m k st = k st"
| "upto (Suc n) m k st =
     (case m (upto n m k) st of Some r \<Rightarrow> Some r | None \<Rightarrow> k st)"

text \<open>\<open>len\<close> is the length of the whole input: \<open>^\<close> holds where nothing is consumed yet.\<close>

primrec rmatch :: "nat \<Rightarrow> rx \<Rightarrow> cont \<Rightarrow> cont" where
  "rmatch len Bol k st = (if length (fst st) = len then k st else None)"
| "rmatch len Eol k st = (if fst st = [] then k st else None)"
| "rmatch len (Lit w) k st =
     (if take (length w) (fst st) = w then k (drop (length w) (fst st), snd st) else None)"
| "rmatch len (Cls rs) k st =
     (case fst st of [] \<Rightarrow> None
      | x # s \<Rightarrow> if in_class rs x then k (s, snd st) else None)"
| "rmatch len Dot k st =
     (case fst st of [] \<Rightarrow> None
      | x # s \<Rightarrow> if line_terminator x then None else k (s, snd st))"
| "rmatch len (Seq a b) k st = rmatch len a (rmatch len b k) st"
| "rmatch len (Alt a b) k st =
     (case rmatch len a k st of Some r \<Rightarrow> Some r | None \<Rightarrow> rmatch len b k st)"
| "rmatch len (Opt a) k st =
     (case rmatch len a k st of Some r \<Rightarrow> Some r | None \<Rightarrow> k st)"
| "rmatch len (Upto n a) k st = upto n (rmatch len a) k st"
| "rmatch len (Star a) k st = upto (length (fst st)) (rmatch len a) k st"
| "rmatch len (Plus a) k st =
     rmatch len a (\<lambda>st'. upto (length (fst st')) (rmatch len a) k st') st"
| "rmatch len (Grp i a) k st =
     rmatch len a
       (\<lambda>st'. k (fst st',
                  (snd st')(i \<mapsto> take (length (fst st) - length (fst st')) (fst st))))
       st"

fun first_some :: "'a option list \<Rightarrow> 'a option" where
  "first_some [] = None"
| "first_some (None # xs) = first_some xs"
| "first_some (Some x # xs) = Some x"

text \<open>
  \<open>exec\<close> of a pattern without the \<open>g\<close> and \<open>y\<close> flags: the match is attempted from
  index 0, then 1, and so on up to the end of the input; the first success gives the
  captures, and no success gives \<open>null\<close>.
\<close>

definition exec :: "rx \<Rightarrow> string \<Rightarrow> captures option" where
  "exec r q =
     map_option snd
       (first_some
          (map (\<lambda>i. rmatch (length q) r Some (drop i q, Map.empty)) [0..<Suc (length q)]))"

text \<open>
  The pattern of line 9, piece by piece:
  \<^verbatim>\<open>^(?:https:\/\/open\.spotify\.com\/(intl-([a-z]|[A-Z]){0,3}\/)?(?:user\/[A-Za-z0-9]+\/)?|spotify:)(album|playlist|track)(?:[/:])([A-Za-z0-9]+).*$\<close>
\<close>

definition alnum :: "(char \<times> char) list" where
  "alnum = [(CHR ''A'', CHR ''Z''), (CHR ''a'', CHR ''z''), (CHR ''0'', CHR ''9'')]"

definition re_locale :: rx where
  \<comment> \<open>\<open>(intl-([a-z]|[A-Z]){0,3}\/)\<close>: groups 1 and 2\<close>
  "re_locale =
     Grp 1 (Seq (Lit ''intl-'')
           (Seq (Upto 3 (Grp 2 (Alt (Cls [(CHR ''a'', CHR ''z'')]) (Cls [(CHR ''A'', CHR ''Z'')]))))
                (Lit ''/'')))"

definition re_user :: rx where
  \<comment> \<open>\<open>(?:user\/[A-Za-z0-9]+\/)\<close>\<close>
  "re_user = Seq (Lit ''user/'') (Seq (Plus (Cls alnum)) (Lit ''/''))"

definition re_head :: rx where
  "re_head =
     Alt (Seq (Lit ''https://open.spotify.com/'') (Seq (Opt re_locale) (Opt re_user)))
         (Lit ''spotify:'')"

definition re_kind :: rx where
  \<comment> \<open>\<open>(album|playlist|track)\<close>: group 3\<close>
  "re_kind = Grp 3 (Alt (Lit ''album'') (Alt (Lit ''playlist'') (Lit ''track'')))"

definition re_tail :: rx where
  \<comment> \<open>\<open>(album|playlist|track)(?:[/:])([A-Za-z0-9]+).*$\<close>: groups 3 and 4\<close>
  "re_tail =
     Seq re_kind
    (Seq (Cls [(CHR ''/'', CHR ''/''), (CHR '':'', CHR '':'')])
    (Seq (Grp 4 (Plus (Cls alnum)))
    (Seq (Star Dot)
         Eol)))"

definition re :: rx where
  "re = Seq Bol (Seq re_head re_tail)"

text \<open>
  \<open>parse(q)\<close>: \<open>const [, , , queryType, id] = re.exec(q) || []\<close> reads the groups 3 and 4
  of the match, and \<open>undefined\<close> twice when there is none. The groups 1 and 2 are never
  read.
\<close>

definition parse :: "string \<Rightarrow> string option \<times> string option" where
  "parse q = (case exec re q of None \<Rightarrow> (None, None) | Some c \<Rightarrow> (c 3, c 4))"

section \<open>The documented grammar and the language of the pattern\<close>

text \<open>
  The grammar as documented: \<open>https://open.spotify.com/\<close>, an optional \<open>intl-\<close> infix
  of two letters, an optional \<open>user/<name>/\<close>, then \<open><kind>/<id>\<close>; or
  \<open>spotify:<kind>:<id>\<close>. Ids and names are non-empty runs of ASCII letters and digits.
  \<open>accepted\<close> describes, without reference to the matcher, what the pattern of line 9
  takes.
\<close>

definition is_alnum :: "char \<Rightarrow> bool" where
  "is_alnum x = in_class alnum x"

definition is_letter :: "char \<Rightarrow> bool" where
  "is_letter x \<longleftrightarrow> in_class [(CHR ''a'', CHR ''z'')] x \<or> in_class [(CHR ''A'', CHR ''Z'')] x"

definition is_kind :: "string \<Rightarrow> bool" where
  "is_kind k \<longleftrightarrow> k = ''album'' \<or> k = ''playlist'' \<or> k = ''track''"

definition is_ident :: "string \<Rightarrow> bool" where
  "is_ident i \<longleftrightarrow> i \<noteq> [] \<and> list_all is_alnum i"

definition user_part :: "string \<Rightarrow> bool" where
  "user_part u \<longleftrightarrow> u = [] \<or> (\<exists>n. u = ''user/'' @ n @ ''/'' \<and> is_ident n)"

definition locale_part :: "string \<Rightarrow> bool" where
  "locale_part l \<longleftrightarrow>
     l = [] \<or> (\<exists>ls. l = ''intl-'' @ ls @ ''/'' \<and> length ls \<le> 3 \<and> list_all is_letter ls)"

definition two_letter_locale :: "string \<Rightarrow> bool" where
  "two_letter_locale l \<longleftrightarrow>
     l = [] \<or> (\<exists>a b. l = ''intl-'' @ [a, b] @ ''/'' \<and> is_letter a \<and> is_letter b)"

definition head_part :: "string \<Rightarrow> bool" where
  "head_part h \<longleftrightarrow>
     h = ''spotify:'' \<or>
     (\<exists>l u. h = ''https://open.spotify.com/'' @ l @ u \<and> locale_part l \<and> user_part u)"

definition accepted :: "string \<Rightarrow> string \<Rightarrow> string \<Rightarrow> bool" where
  "accepted q k i \<longleftrightarrow>
     is_kind k \<and> is_ident i \<and>
     (\<exists>h sep t. q = h @ k @ sep # i @ t \<and> head_part h \<and>
        (sep = CHR ''/'' \<or> sep = CHR '':'') \<and>
        (t = [] \<or> \<not> is_alnum (hd t)) \<and> list_all (\<lambda>x. \<not> line_terminator x) t)"

definition documented :: "string \<Rightarrow> string \<Rightarrow> string \<Rightarrow> bool" where
  "documented q k i \<longleftrightarrow>
     is_kind k \<and> is_ident i \<and>
     (q = ''spotify:'' @ k @ '':'' @ i \<or>
      (\<exists>l u. q = ''https://open.spotify.com/'' @ l @ u @ k @ ''/'' @ i \<and>
             two_letter_locale l \<and> user_part u))"

definition documented_url :: "string \<Rightarrow> bool" where
  "documented_url q \<longleftrightarrow> (\<exists>k i. documented q k i)"

section \<open>Values of the host language\<close>

text \<open>
  The result of awaiting a call to a collaborator: the promise rejects, or it resolves to
  a falsy value (\<open>null\<close>, \<open>undefined\<close>), or it resolves to an object.
\<close>

datatype 'a outcome = Throws string | Falsy | Value 'a

datatype error =
    TypeError string     \<comment> \<open>raised by the runtime: a property read on \<open>undefined\<close>\<close>
  | Error string         \<comment> \<open>\<open>throw new Error(...)\<close> of the extractor\<close>
  | Rejected string      \<comment> \<open>a collaborator's rejection that nothing catches\<close>

text \<open>\<open>promise.catch(Util.noop)\<close>: a rejection becomes \<open>undefined\<close>; \<open>!x\<close> then holds of it.\<close>

fun catch_noop :: "'a outcome \<Rightarrow> 'a option" where
  "catch_noop (Throws m) = None"
| "catch_noop Falsy = None"
| "catch_noop (Value v) = Some v"

text \<open>\<open>a ?? b\<close>, and on strings \<open>a || b\<close> and \<open>a ? b : c\<close> (the empty string is falsy).\<close>

fun nullish :: "'a option \<Rightarrow> 'a \<Rightarrow> 'a" where
  "nullish None d = d"
| "nullish (Some v) d = v"

fun truthy :: "string option \<Rightarrow> bool" where
  "truthy None = False"
| "truthy (Some v) = (v \<noteq> [])"

definition truthy_or :: "string option \<Rightarrow> string \<Rightarrow> string" where
  "truthy_or a d = (if truthy a then the a else d)"

text \<open>A value inside a template literal; \<open>undefined\<close> prints as the word.\<close>

fun js_string :: "string option \<Rightarrow> string" where
  "js_string None = ''undefined''"
| "js_string (Some v) = v"

text \<open>\<open>Array.prototype.join\<close>: an \<open>undefined\<close> element prints as the empty string.\<close>

fun join :: "string \<Rightarrow> string option list \<Rightarrow> string" where
  "join sep [] = []"
| "join sep [x] = nullish x []"
| "join sep (x # y # ys) = nullish x [] @ sep @ join sep (y # ys)"

section \<open>The duration formatter\<close>

text \<open>
  Modelled from the spec: \<open>Util.parseMS\<close> and \<open>Util.buildTimeCode\<close> belong to the
  \<open>discord-player\<close> package and are not among the sources. The specification makes the
  conversion from milliseconds to a timecode pure and total, clamps a negative duration
  to zero, pads each unit to two digits and omits leading zero units; minutes and seconds
  are always printed.
\<close>

record time_data =
  hours :: nat
  minutes :: nat
  seconds :: nat

definition parseMS :: "int \<Rightarrow> time_data" where
  "parseMS ms =
     (let t = nat (max 0 ms) div 1000
      in \<lparr>hours = t div 3600, minutes = t div 60 mod 60, seconds = t mod 60\<rparr>)"

fun digits :: "nat \<Rightarrow> string" where
  "digits n =
     (if n < 10 then [char_of (48 + n)] else digits (n div 10) @ [char_of (48 + n mod 10)])"

definition pad2 :: "nat \<Rightarrow> string" where
  "pad2 n = (if n < 10 then CHR ''0'' # digits n else digits n)"

definition buildTimeCode :: "time_data \<Rightarrow> string" where
  "buildTimeCode d =
     (if hours d = 0 then pad2 (minutes d) @ '':'' @ pad2 (seconds d)
      else pad2 (hours d) @ '':'' @ pad2 (minutes d) @ '':'' @ pad2 (seconds d))"

section \<open>Provider payloads\<close>

text \<open>
  The primary client's payloads (\<open>SpotifyAPI\<close> in \<open>../internal\<close>) with the fields that
  \<open>handle\<close> reads; a field that the code guards with \<open>??\<close> or \<open>||\<close> is optional.
\<close>

record api_song =
  as_title :: string
  as_artist :: "string option"
  as_url :: string
  as_thumbnail :: "string option"
  as_duration :: "int option"

record api_playlist =
  ap_name :: "string option"
  ap_thumbnail :: "string option"
  ap_author :: "string option"
  ap_id :: string
  ap_url :: "string option"
  ap_tracks :: "api_song list"

text \<open>
  What the scraper (\<open>spotify-url-info\<close>) delivers. \<open>getData\<close> answers for a song, a
  playlist and an album alike, and \<open>handle\<close> casts the answer; so one record carries the
  fields of all three, each optional where the code reads it defensively or where the
  other shapes lack it. \<open>sc_cover\<close> is the value of \<open>coverArt?.sources?.[0]?.url\<close>.
\<close>

record scraped_item =
  si_title :: "string option"
  si_subtitle :: "string option"
  si_uid :: "string option"
  si_duration :: int

record scraped =
  sc_name :: "string option"
  sc_title :: "string option"
  sc_subtitle :: "string option"
  sc_type :: string
  sc_id :: "string option"
  sc_cover :: "string option"
  sc_artists :: "string option list option"
  sc_duration :: "int option"
  sc_maxDuration :: "int option"
  sc_trackList :: "scraped_item list option"

datatype payload =
    PrimarySong api_song
  | ScrapedSong scraped
  | ScrapedItem scraped_item

datatype raw_playlist = RawPrimary api_playlist | RawScraped scraped

section \<open>Tracks, playlists and the heap\<close>

text \<open>What a bridge delivers for a track: opaque but for the playable URL.\<close>

record bridge =
  b_url :: "string option"
  b_info :: string

record metadata =
  m_source :: "payload option"
  m_bridge :: "bridge option"

text \<open>
  Modelled from the spec: the classes \<open>Track\<close> and \<open>Playlist\<close> belong to the
  \<open>discord-player\<close> package and are not among the sources. A track is the record of the
  fields its creation site passes (\<open>t_description\<close> is the description passed, whatever
  the constructor makes of it), the slot \<open>raw.url\<close> (which starts as the track's URL), the
  extractor it is attached to, and its deferred metadata resolver. The resolver is the
  closure written at each creation site; the sites differ only in the payload the closure
  captures, which \<open>t_requestMetadata\<close> holds. A track refers to its playlist, and a
  playlist to the array of its tracks, by address.
\<close>

record track =
  t_title :: "string option"
  t_description :: string
  t_author :: string
  t_url :: string
  t_thumbnail :: string
  t_duration :: string
  t_views :: nat
  t_requestedBy :: "string option"
  t_playlist :: "nat option"
  t_source :: string
  t_queryType :: "query_type option"
  t_metadata :: "metadata option"
  t_requestMetadata :: "payload option"
  t_raw_url :: string
  t_extractor :: "string option"

record playlist =
  pl_title :: "string option"
  pl_description :: string
  pl_thumbnail :: string
  pl_type :: string
  pl_source :: string
  pl_author_name :: string
  pl_author_url :: "string option"
  pl_tracks :: nat
  pl_id :: "string option"
  pl_url :: string
  pl_rawPlaylist :: raw_playlist

text \<open>Objects live in a heap; an address is the index at which the object was created.\<close>

record heap =
  h_tracks :: "track list"
  h_playlists :: "playlist list"
  h_arrays :: "nat list list"

definition new_track :: "heap \<Rightarrow> track \<Rightarrow> nat \<times> heap" where
  "new_track h t = (length (h_tracks h), h\<lparr>h_tracks := h_tracks h @ [t]\<rparr>)"

definition new_playlist :: "heap \<Rightarrow> playlist \<Rightarrow> nat \<times> heap" where
  "new_playlist h p = (length (h_playlists h), h\<lparr>h_playlists := h_playlists h @ [p]\<rparr>)"

definition new_array :: "heap \<Rightarrow> nat list \<Rightarrow> nat \<times> heap" where
  "new_array h a = (length (h_arrays h), h\<lparr>h_arrays := h_arrays h @ [a]\<rparr>)"

text \<open>\<open>xs.map(f)\<close> where \<open>f\<close> creates one track: the tracks are created in the order of \<open>xs\<close>.\<close>

fun new_tracks :: "('a \<Rightarrow> track) \<Rightarrow> 'a list \<Rightarrow> heap \<Rightarrow> nat list \<times> heap" where
  "new_tracks f [] h = ([], h)"
| "new_tracks f (x # xs) h =
     (case new_track h (f x) of (a, h1) \<Rightarrow>
        (case new_tracks f xs h1 of (as, h2) \<Rightarrow> (a # as, h2)))"

text \<open>\<open>playlist.tracks = arr\<close>.\<close>

definition set_tracks :: "heap \<Rightarrow> nat \<Rightarrow> nat \<Rightarrow> heap" where
  "set_tracks h p arr =
     h\<lparr>h_playlists := (h_playlists h)[p := (h_playlists h ! p)\<lparr>pl_tracks := arr\<rparr>]\<rparr>"

record extractor_info =
  i_playlist :: "nat option"
  i_tracks :: nat

section \<open>The extractor and its collaborators\<close>

datatype playable = Url string | Readable string

text \<open>
  A bridge provider (\<open>./common/BridgeProvider\<close>): \<open>resolve(ext, track)\<close> resolves to an
  object \<open>{data}\<close>, here \<open>Value data\<close>, or to nothing; \<open>stream\<close> takes that object.
\<close>

record bridge_provider =
  bp_resolve :: "track \<Rightarrow> bridge option outcome"
  bp_stream :: "bridge option \<Rightarrow> playable outcome"

record init_options =
  clientId :: "string option"
  clientSecret :: "string option"
  createStream :: "(string \<Rightarrow> playable outcome) option"
  bridgeProvider :: "bridge_provider option"

record extractor =
  options :: init_options
  priv_stream :: "(string \<Rightarrow> playable outcome) option"   \<comment> \<open>\<open>_stream\<close>\<close>
  priv_isYtdl :: bool                                        \<comment> \<open>\<open>_isYtdl\<close>\<close>
  priv_lib :: "(string \<Rightarrow> scraped outcome) option"         \<comment> \<open>\<open>_lib\<close>, by its \<open>getData\<close>\<close>

text \<open>The field initialisers of the class: \<open>_stream\<close> and \<open>_lib\<close> are declared unset.\<close>

definition new_extractor :: "init_options \<Rightarrow> extractor" where
  "new_extractor opts =
     \<lparr>options = opts, priv_stream = None, priv_isYtdl = False, priv_lib = None\<rparr>"

text \<open>
  Everything outside the extractor: the primary client \<open>this.internal\<close>, the scraper that
  \<open>spotify(getFetch)\<close> builds, the stream library that \<open>loadYtdl\<close> loads, and the helpers
  \<open>pullYTMetadata\<close> and \<open>YoutubeExtractor.validateURL\<close>. None of them is among the
  sources; each is a parameter.
\<close>

record env =
  e_search :: "string \<Rightarrow> api_song list outcome"
  e_getPlaylist :: "string option \<Rightarrow> api_playlist outcome"
  e_getAlbum :: "string option \<Rightarrow> api_playlist outcome"
  e_isTokenExpired :: bool
  e_requestToken :: "unit outcome"
  e_getData :: "string \<Rightarrow> scraped outcome"
  e_loadYtdl :: "(string \<Rightarrow> playable outcome) outcome"
  e_pullYTMetadata :: "track \<Rightarrow> bridge outcome"
  e_validateURL :: "string \<Rightarrow> bool"

text \<open>The calls to collaborators, in the order in which they are made.\<close>

datatype call =
    CallSearch string
  | CallGetPlaylist "string option"
  | CallGetAlbum "string option"
  | CallGetData string
  | CallResolve
  | CallProviderStream
  | CallPullYTMetadata
  | CallStream string

record search_context =
  c_type :: "query_type option"
  c_requestedBy :: "string option"

subsection \<open>\<open>activate\<close>\<close>

definition activate :: "env \<Rightarrow> extractor \<Rightarrow> error + extractor" where
  "activate e x =
     (if bridgeProvider (options x) \<noteq> None then Inr x
      else
        (case createStream (options x) of
           Some fn \<Rightarrow> Inr (x\<lparr>priv_isYtdl := False, priv_stream := Some fn\<rparr>)
         | None \<Rightarrow>
             (case e_loadYtdl e of
                Throws m \<Rightarrow> Inl (Rejected m)
              | Falsy \<Rightarrow> Inl (TypeError ''Cannot read properties of undefined (reading stream)'')
              | Value s \<Rightarrow>
                  (let x' = x\<lparr>priv_stream := Some s, priv_lib := Some (e_getData e),
                              priv_isYtdl := True\<rparr>
                   in if e_isTokenExpired e
                      then (case e_requestToken e of
                              Throws m \<Rightarrow> Inl (Rejected m)
                            | _ \<Rightarrow> Inr x')
                      else Inr x'))))"

subsection \<open>The normalisers\<close>

definition unknown_artist :: string where
  "unknown_artist = ''Unknown Artist''"

definition default_thumbnail :: string where
  "default_thumbnail = ''https://www.scdn.co/i/_global/twitter_card-default.jpg''"

definition extractor_identifier :: string where
  "extractor_identifier = ''com.discord-player.spotifyextractor''"

text \<open>
  Each creation site is \<open>new Track(player, {...})\<close> followed by \<open>track.extractor = this\<close>
  and, inside a playlist, \<open>data.playlist = playlist\<close>; the record below is the track
  after these assignments. Lines 81 to 104, 165 to 189 and 270 to 294 share the first
  normaliser; 113 to 136 is the second; 214 to 239 and 319 to 344 share the third.
\<close>

definition primary_track :: "search_context \<Rightarrow> nat option \<Rightarrow> api_song \<Rightarrow> track" where
  "primary_track ctx pl d =
     \<lparr>t_title = Some (as_title d),
      t_description = as_title d @ '' by '' @ js_string (as_artist d),
      t_author = nullish (as_artist d) unknown_artist,
      t_url = as_url d,
      t_thumbnail = truthy_or (as_thumbnail d) default_thumbnail,
      t_duration = buildTimeCode (parseMS (nullish (as_duration d) 0)),
      t_views = 0,
      t_requestedBy = c_requestedBy ctx,
      t_playlist = pl,
      t_source = ''spotify'',
      t_queryType = Some SPOTIFY_SONG,
      t_metadata = Some \<lparr>m_source = Some (PrimarySong d), m_bridge = None\<rparr>,
      t_requestMetadata = Some (PrimarySong d),
      t_raw_url = as_url d,
      t_extractor = Some extractor_identifier\<rparr>"

definition scraped_song_url :: "string \<Rightarrow> scraped \<Rightarrow> string" where
  "scraped_song_url query d =
     (if truthy (sc_id d) then ''https://open.spotify.com/track/'' @ the (sc_id d) else query)"

definition scraped_track ::
  "search_context \<Rightarrow> string \<Rightarrow> scraped \<Rightarrow> string option list \<Rightarrow> track" where
  "scraped_track ctx query d artists =
     \<lparr>t_title = sc_title d,
      t_description = js_string (sc_name d) @ '' by '' @ join '', '' artists,
      t_author = (case artists of [] \<Rightarrow> unknown_artist | a # _ \<Rightarrow> nullish a unknown_artist),
      t_url = scraped_song_url query d,
      t_thumbnail = truthy_or (sc_cover d) default_thumbnail,
      t_duration =
        buildTimeCode (parseMS (nullish (sc_duration d) (nullish (sc_maxDuration d) 0))),
      t_views = 0,
      t_requestedBy = c_requestedBy ctx,
      t_playlist = None,
      t_source = ''spotify'',
      t_queryType = c_type ctx,
      t_metadata = Some \<lparr>m_source = Some (ScrapedSong d), m_bridge = None\<rparr>,
      t_requestMetadata = Some (ScrapedSong d),
      t_raw_url = scraped_song_url query d,
      t_extractor = Some extractor_identifier\<rparr>"

definition item_url :: "string \<Rightarrow> scraped_item \<Rightarrow> string" where
  "item_url query m =
     (if truthy (si_uid m) then ''https://open.spotify.com/tracks/'' @ the (si_uid m) else query)"

definition item_track :: "search_context \<Rightarrow> string \<Rightarrow> nat \<Rightarrow> scraped_item \<Rightarrow> track" where
  "item_track ctx query pl m =
     \<lparr>t_title = Some (nullish (si_title m) []),
      t_description = nullish (si_title m) [],
      t_author = nullish (si_subtitle m) unknown_artist,
      t_url = item_url query m,
      t_thumbnail = default_thumbnail,
      t_duration = buildTimeCode (parseMS (si_duration m)),
      t_views = 0,
      t_requestedBy = c_requestedBy ctx,
      t_playlist = Some pl,
      t_source = ''spotify'',
      t_queryType = Some SPOTIFY_SONG,
      t_metadata = Some \<lparr>m_source = Some (ScrapedItem m), m_bridge = None\<rparr>,
      t_requestMetadata = Some (ScrapedItem m),
      t_raw_url = item_url query m,
      t_extractor = Some extractor_identifier\<rparr>"

text \<open>Lines 148 to 162 and 253 to 267; \<open>kind\<close> is \<open>'playlist'\<close> or \<open>'album'\<close>.\<close>

definition primary_playlist :: "string \<Rightarrow> string \<Rightarrow> nat \<Rightarrow> api_playlist \<Rightarrow> playlist" where
  "primary_playlist kind query arr sp =
     \<lparr>pl_title = ap_name sp,
      pl_description = nullish (ap_name sp) [],
      pl_thumbnail = nullish (ap_thumbnail sp) default_thumbnail,
      pl_type = kind,
      pl_source = ''spotify'',
      pl_author_name = nullish (ap_author sp) unknown_artist,
      pl_author_url = None,
      pl_tracks = arr,
      pl_id = Some (ap_id sp),
      pl_url = truthy_or (ap_url sp) query,
      pl_rawPlaylist = RawPrimary sp\<rparr>"

text \<open>Lines 197 to 211 and 302 to 316.\<close>

definition scraped_playlist :: "string \<Rightarrow> nat \<Rightarrow> scraped \<Rightarrow> playlist" where
  "scraped_playlist query arr sp =
     \<lparr>pl_title = (case sc_name sp of Some n \<Rightarrow> Some n | None \<Rightarrow> sc_title sp),
      pl_description = nullish (sc_title sp) [],
      pl_thumbnail = nullish (sc_cover sp) default_thumbnail,
      pl_type = sc_type sp,
      pl_source = ''spotify'',
      pl_author_name = nullish (sc_subtitle sp) unknown_artist,
      pl_author_url = None,
      pl_tracks = arr,
      pl_id = sc_id sp,
      pl_url =
        (if truthy (sc_id sp) then ''https://open.spotify.com/playlist/'' @ the (sc_id sp)
         else query),
      pl_rawPlaylist = RawScraped sp\<rparr>"

subsection \<open>\<open>handle\<close>\<close>

text \<open>
  Modelled from the spec: \<open>createResponse\<close> belongs to \<open>BaseExtractor\<close>, which is not
  among the sources. It builds \<open>{playlist, tracks}\<close>, with a new empty array when no
  tracks are given. The literal \<open>{ playlist: null, tracks: [] }\<close> is \<open>empty_response\<close>.
\<close>

definition createResponse :: "heap \<Rightarrow> nat option \<Rightarrow> nat option \<Rightarrow> heap \<times> extractor_info" where
  "createResponse h pl tracks =
     (case tracks of
        Some arr \<Rightarrow> (h, \<lparr>i_playlist = pl, i_tracks = arr\<rparr>)
      | None \<Rightarrow> (case new_array h [] of (arr, h1) \<Rightarrow> (h1, \<lparr>i_playlist = pl, i_tracks = arr\<rparr>)))"

definition empty_response :: "heap \<Rightarrow> heap \<times> extractor_info" where
  "empty_response h =
     (case new_array h [] of (arr, h1) \<Rightarrow> (h1, \<lparr>i_playlist = None, i_tracks = arr\<rparr>))"

text \<open>Lines 75 to 108.\<close>

definition handle_search ::
  "env \<Rightarrow> heap \<Rightarrow> string \<Rightarrow> search_context \<Rightarrow> heap \<times> call list \<times> (error + extractor_info)" where
  "handle_search e h query ctx =
     (case e_search e query of
        Throws m \<Rightarrow> (h, [CallSearch query], Inl (Rejected m))
      | Falsy \<Rightarrow>
          (case createResponse h None None of (h1, r) \<Rightarrow> (h1, [CallSearch query], Inr r))
      | Value data \<Rightarrow>
          (case new_tracks (primary_track ctx None) data h of (as, h1) \<Rightarrow>
           case new_array h1 as of (arr, h2) \<Rightarrow>
           case createResponse h2 None (Some arr) of (h3, r) \<Rightarrow>
             (h3, [CallSearch query], Inr r)))"

text \<open>Lines 111 to 138.\<close>

definition handle_song ::
  "extractor \<Rightarrow> heap \<Rightarrow> string \<Rightarrow> search_context \<Rightarrow>
     heap \<times> call list \<times> (error + extractor_info)" where
  "handle_song x h query ctx =
     (case priv_lib x of
        None \<Rightarrow> (h, [], Inl (TypeError ''Cannot read properties of undefined (reading getData)''))
      | Some getData \<Rightarrow>
          (case catch_noop (getData query) of
             None \<Rightarrow> (case empty_response h of (h1, r) \<Rightarrow> (h1, [CallGetData query], Inr r))
           | Some spotifyData \<Rightarrow>
               (case sc_artists spotifyData of
                  None \<Rightarrow>
                    (h, [CallGetData query],
                     Inl (TypeError ''Cannot read properties of undefined (reading map)''))
                | Some artists \<Rightarrow>
                    (case new_track h (scraped_track ctx query spotifyData artists) of
                       (t, h1) \<Rightarrow>
                     case new_array h1 [t] of (arr, h2) \<Rightarrow>
                       (h2, [CallGetData query],
                        Inr \<lparr>i_playlist = None, i_tracks = arr\<rparr>)))))"

text \<open>
  The \<open>try\<close> blocks of lines 141 to 192 and 246 to 297: \<open>None\<close> stands for the exception
  that the \<open>catch\<close> receives. \<open>get\<close> is \<open>getPlaylist\<close> or \<open>getAlbum\<close>.
\<close>

definition primary_list ::
  "string \<Rightarrow> (string option \<Rightarrow> api_playlist outcome) \<Rightarrow> (string option \<Rightarrow> call) \<Rightarrow>
     heap \<Rightarrow> string \<Rightarrow> search_context \<Rightarrow> call list \<times> (heap \<times> extractor_info) option" where
  "primary_list kind get mk h query ctx =
     (case parse query of (queryType, ident) \<Rightarrow>
        if queryType \<noteq> Some kind then ([], None)
        else
          (case get ident of
             Throws m \<Rightarrow> ([mk ident], None)
           | Falsy \<Rightarrow> ([mk ident], None)
           | Value sp \<Rightarrow>
               (case new_array h [] of (a0, h1) \<Rightarrow>
                case new_playlist h1 (primary_playlist kind query a0 sp) of (p, h2) \<Rightarrow>
                case new_tracks (primary_track ctx (Some p)) (ap_tracks sp) h2 of (as, h3) \<Rightarrow>
                case new_array h3 as of (arr, h4) \<Rightarrow>
                  (let h5 = set_tracks h4 p arr
                   in ([mk ident],
                       Some (h5, \<lparr>i_playlist = Some p,
                                   i_tracks = pl_tracks (h_playlists h5 ! p)\<rparr>))))))"

text \<open>The \<open>catch\<close> blocks of lines 193 to 243 and 298 to 348.\<close>

definition fallback_list ::
  "extractor \<Rightarrow> heap \<Rightarrow> string \<Rightarrow> search_context \<Rightarrow>
     heap \<times> call list \<times> (error + extractor_info)" where
  "fallback_list x h query ctx =
     (case priv_lib x of
        None \<Rightarrow> (h, [], Inl (TypeError ''Cannot read properties of undefined (reading getData)''))
      | Some getData \<Rightarrow>
          (case catch_noop (getData query) of
             None \<Rightarrow> (case empty_response h of (h1, r) \<Rightarrow> (h1, [CallGetData query], Inr r))
           | Some sp \<Rightarrow>
               (case new_array h [] of (a0, h1) \<Rightarrow>
                case new_playlist h1 (scraped_playlist query a0 sp) of (p, h2) \<Rightarrow>
                  (case sc_trackList sp of
                     None \<Rightarrow>
                       (h2, [CallGetData query],
                        Inl (TypeError ''Cannot read properties of undefined (reading map)''))
                   | Some trackList \<Rightarrow>
                       (case new_tracks (item_track ctx query p) trackList h2 of (as, h3) \<Rightarrow>
                        case new_array h3 as of (arr, h4) \<Rightarrow>
                          (let h5 = set_tracks h4 p arr
                           in (h5, [CallGetData query],
                               Inr \<lparr>i_playlist = Some p,
                                    i_tracks = pl_tracks (h_playlists h5 ! p)\<rparr>)))))))"

definition handle_list ::
  "string \<Rightarrow> (string option \<Rightarrow> api_playlist outcome) \<Rightarrow> (string option \<Rightarrow> call) \<Rightarrow>
     extractor \<Rightarrow> heap \<Rightarrow> string \<Rightarrow> search_context \<Rightarrow>
     heap \<times> call list \<times> (error + extractor_info)" where
  "handle_list kind get mk x h query ctx =
     (case primary_list kind get mk h query ctx of
        (log, Some (h1, r)) \<Rightarrow> (h1, log, Inr r)
      | (log, None) \<Rightarrow>
          (case fallback_list x h query ctx of (h1, log', r) \<Rightarrow> (h1, log @ log', r)))"

text \<open>The \<open>switch\<close> of lines 71 to 352.\<close>

definition handle ::
  "env \<Rightarrow> extractor \<Rightarrow> heap \<Rightarrow> string \<Rightarrow> search_context \<Rightarrow>
     heap \<times> call list \<times> (error + extractor_info)" where
  "handle e x h query ctx =
     (case c_type ctx of
        Some AUTO \<Rightarrow> handle_search e h query ctx
      | Some AUTO_SEARCH \<Rightarrow> handle_search e h query ctx
      | Some SPOTIFY_SEARCH \<Rightarrow> handle_search e h query ctx
      | Some SPOTIFY_SONG \<Rightarrow> handle_song x h query ctx
      | Some SPOTIFY_PLAYLIST \<Rightarrow>
          handle_list ''playlist'' (e_getPlaylist e) CallGetPlaylist x h query ctx
      | Some SPOTIFY_ALBUM \<Rightarrow>
          handle_list ''album'' (e_getAlbum e) CallGetAlbum x h query ctx
      | Some (OtherQueryType v) \<Rightarrow>
          (case empty_response h of (h1, r) \<Rightarrow> (h1, [], Inr r))
      | None \<Rightarrow> (case empty_response h of (h1, r) \<Rightarrow> (h1, [], Inr r)))"

subsection \<open>The deferred metadata resolver\<close>

text \<open>
  The body of every \<open>requestMetadata\<close> closure (lines 96 to 101 and its five copies);
  \<open>src\<close> is the payload that the closure captured and \<open>t\<close> the track it refers to.
\<close>

definition requestMetadata :: "env \<Rightarrow> extractor \<Rightarrow> payload \<Rightarrow> track \<Rightarrow> error + metadata" where
  "requestMetadata e x src t =
     (case bridgeProvider (options x) of
        Some provider \<Rightarrow>
          (case bp_resolve provider t of
             Throws m \<Rightarrow> Inl (Rejected m)
           | Falsy \<Rightarrow> Inl (TypeError ''Cannot read properties of undefined (reading data)'')
           | Value d \<Rightarrow> Inr \<lparr>m_source = Some src, m_bridge = d\<rparr>)
      | None \<Rightarrow>
          (case e_pullYTMetadata e t of
             Throws m \<Rightarrow> Inl (Rejected m)
           | Falsy \<Rightarrow> Inr \<lparr>m_source = Some src, m_bridge = None\<rparr>
           | Value b \<Rightarrow> Inr \<lparr>m_source = Some src, m_bridge = Some b\<rparr>))"

subsection \<open>\<open>stream\<close>\<close>

text \<open>
  Modelled from the spec: \<open>Track.setMetadata\<close> is not among the sources; it replaces the
  metadata envelope. The argument \<open>{...(info.metadata || {}), bridge: b}\<close> keeps every
  other key of the old envelope.
\<close>

definition with_bridge :: "track \<Rightarrow> bridge option \<Rightarrow> track" where
  "with_bridge info b =
     info\<lparr>t_metadata :=
       Some (case t_metadata info of
               None \<Rightarrow> \<lparr>m_source = None, m_bridge = b\<rparr>
             | Some m \<Rightarrow> m\<lparr>m_bridge := b\<rparr>)\<rparr>"

text \<open>
  \<open>stream(info)\<close> returns the track as it leaves it, the calls made, and the error or the
  handle; a collaborator that resolves to nothing gives the handle \<open>None\<close>.
\<close>

fun returned :: "playable outcome \<Rightarrow> error + playable option" where
  "returned (Throws m) = Inl (Rejected m)"
| "returned Falsy = Inr None"
| "returned (Value v) = Inr (Some v)"

definition stream ::
  "env \<Rightarrow> extractor \<Rightarrow> track \<Rightarrow> track \<times> call list \<times> (error + playable option)" where
  "stream e x info =
     (case bridgeProvider (options x) of
        Some provider \<Rightarrow>
          (case bp_resolve provider info of
             Throws m \<Rightarrow> (info, [CallResolve], Inl (Rejected m))
           | Falsy \<Rightarrow> (info, [CallResolve], Inl (Error ''Failed to bridge this track''))
           | Value d \<Rightarrow>
               (with_bridge info d, [CallResolve, CallProviderStream],
                returned (bp_stream provider d)))
      | None \<Rightarrow>
          (case priv_stream x of
             None \<Rightarrow>
               (info, [],
                Inl (Error (''Could not initialize streaming api for '' @
                            [CHR 0x27] @ ''SpotifyExtractor'' @ [CHR 0x27])))
           | Some s \<Rightarrow>
               if priv_isYtdl x then
                 if e_validateURL e (t_raw_url info)
                 then (info, [CallStream (t_raw_url info)], returned (s (t_raw_url info)))
                 else
                   (case e_pullYTMetadata e info of
                      Throws m \<Rightarrow> (info, [CallPullYTMetadata], Inl (Rejected m))
                    | Falsy \<Rightarrow>
                        (info, [CallPullYTMetadata],
                         Inl (Error ''Failed to fetch resources for ytdl streaming''))
                    | Value meta \<Rightarrow>
                        (let info1 = with_bridge info (Some meta)
                         in if \<not> truthy (b_url meta)
                            then (info1, [CallPullYTMetadata],
                                  Inl (Error ''Failed to fetch resources for ytdl streaming''))
                            else (info1\<lparr>t_raw_url := the (b_url meta)\<rparr>,
                                  [CallPullYTMetadata, CallStream (the (b_url meta))],
                                  returned (s (the (b_url meta))))))
               else (info, [CallStream (t_url info)], returned (s (t_url info)))))"

text \<open>\<open>track.metadata?.source\<close>.\<close>

definition metadata_source :: "track \<Rightarrow> payload option" where
  "metadata_source t = (case t_metadata t of None \<Rightarrow> None | Some m \<Rightarrow> m_source m)"

section \<open>Sample collaborators and inputs\<close>

text \<open>
  Concrete collaborators and payloads, on which the theorems below are instantiated: an
  environment in which every lookup comes back empty, one in which the primary client
  knows a playlist of two songs, one in which only the scraper knows it, and bridge
  providers that resolve to nothing or reject.
\<close>

definition no_options :: init_options where
  "no_options =
     \<lparr>clientId = None, clientSecret = None, createStream = None, bridgeProvider = None\<rparr>"

definition silent_provider :: bridge_provider where
  "silent_provider = \<lparr>bp_resolve = (\<lambda>t. Falsy), bp_stream = (\<lambda>d. Falsy)\<rparr>"

definition silent_env :: env where
  "silent_env =
     \<lparr>e_search = (\<lambda>q. Falsy),
      e_getPlaylist = (\<lambda>i. Falsy),
      e_getAlbum = (\<lambda>i. Falsy),
      e_isTokenExpired = False,
      e_requestToken = Value (),
      e_getData = (\<lambda>q. Falsy),
      e_loadYtdl = Value (\<lambda>u. Value (Readable u)),
      e_pullYTMetadata = (\<lambda>t. Falsy),
      e_validateURL = (\<lambda>u. False)\<rparr>"

definition ytdl_extractor :: extractor where
  "ytdl_extractor =
     \<lparr>options = no_options,
      priv_stream = Some (\<lambda>u. Value (Readable u)),
      priv_isYtdl = True,
      priv_lib = Some (\<lambda>q. Falsy)\<rparr>"

definition song_one :: api_song where
  "song_one =
     \<lparr>as_title = ''One'', as_artist = Some ''Ann'',
      as_url = ''https://open.spotify.com/track/1'',
      as_thumbnail = Some ''https://i.scdn.co/image/1'', as_duration = Some 61000\<rparr>"

definition song_two :: api_song where
  "song_two =
     \<lparr>as_title = ''Two'', as_artist = None,
      as_url = ''https://open.spotify.com/track/2'',
      as_thumbnail = None, as_duration = None\<rparr>"

definition item_one :: scraped_item where
  "item_one =
     \<lparr>si_title = Some ''One'', si_subtitle = Some ''Ann'', si_uid = Some ''1'',
      si_duration = 61000\<rparr>"

definition two_songs :: api_playlist where
  "two_songs =
     \<lparr>ap_name = Some ''Mix'', ap_thumbnail = None, ap_author = Some ''Ann'',
      ap_id = ''abc123'', ap_url = None, ap_tracks = [song_one, song_two]\<rparr>"

definition scraped_mix :: scraped where
  "scraped_mix =
     \<lparr>sc_name = Some ''Mix'', sc_title = Some ''Mix'', sc_subtitle = Some ''Ann'',
      sc_type = ''playlist'', sc_id = Some ''abc123'', sc_cover = None, sc_artists = None,
      sc_duration = None, sc_maxDuration = None, sc_trackList = Some [item_one]\<rparr>"

definition empty_heap :: heap where
  "empty_heap = \<lparr>h_tracks = [], h_playlists = [], h_arrays = []\<rparr>"

definition playlist_context :: search_context where
  "playlist_context = \<lparr>c_type = Some SPOTIFY_PLAYLIST, c_requestedBy = None\<rparr>"

definition song_context :: search_context where
  "song_context = \<lparr>c_type = Some SPOTIFY_SONG, c_requestedBy = None\<rparr>"

definition bare_song :: scraped where
  "bare_song =
     \<lparr>sc_name = None, sc_title = None, sc_subtitle = None, sc_type = ''track'', sc_id = None,
      sc_cover = None, sc_artists = Some [], sc_duration = None, sc_maxDuration = None,
      sc_trackList = None\<rparr>"

definition bare_item :: scraped_item where
  "bare_item = \<lparr>si_title = None, si_subtitle = None, si_uid = None, si_duration = 0\<rparr>"

definition sample_query :: string where
  "sample_query = ''https://open.spotify.com/playlist/abc123''"

section \<open>The same track in both shapes\<close>

text \<open>
  A primary payload and a scraped track-list item describe the same track when they agree
  on title, author and duration; a missing duration of the primary payload counts as 0,
  as its normaliser reads it.
\<close>

definition same_track :: "api_song \<Rightarrow> scraped_item \<Rightarrow> bool" where
  "same_track d m \<longleftrightarrow>
     si_title m = Some (as_title d) \<and> si_subtitle m = as_artist d \<and>
     si_duration m = nullish (as_duration d) 0"

text \<open>
  A track as it leaves its creation site: the envelope holds the payload \<open>src\<close> and no
  bridge, and the resolver has captured the same payload.
\<close>

definition created :: "track \<Rightarrow> payload \<Rightarrow> bool" where
  "created t src \<longleftrightarrow>
     t_metadata t = Some \<lparr>m_source = Some src, m_bridge = None\<rparr> \<and>
     t_requestMetadata t = Some src"

definition scraping_extractor :: extractor where
  "scraping_extractor = ytdl_extractor\<lparr>priv_lib := Some (\<lambda>q. Value scraped_mix)\<rparr>"

definition rejecting_provider :: bridge_provider where
  "rejecting_provider = \<lparr>bp_resolve = (\<lambda>t. Throws ''unavailable''), bp_stream = (\<lambda>d. Falsy)\<rparr>"

definition scraper_env :: env where
  "scraper_env = silent_env\<lparr>e_getData := (\<lambda>q. Value scraped_mix)\<rparr>"

definition album_context :: search_context where
  "album_context = \<lparr>c_type = Some SPOTIFY_ALBUM, c_requestedBy = None\<rparr>"

definition primary_env :: env where
  "primary_env = silent_env\<lparr>e_getPlaylist := (\<lambda>i. Value two_songs)\<rparr>"

section \<open>Validation depends on the type only\<close>

text \<open>
  Claim C10. For all query strings \<open>q1\<close>, \<open>q2\<close> and every type \<open>t\<close>, \<open>validate\<close> gives the
  same answer on \<open>(q1, t)\<close> and \<open>(q2, t)\<close>, and the answer is true exactly when \<open>t\<close> is one
  of \<open>SPOTIFY_ALBUM\<close>, \<open>SPOTIFY_PLAYLIST\<close>, \<open>SPOTIFY_SONG\<close>, \<open>SPOTIFY_SEARCH\<close>, \<open>AUTO\<close>,
  \<open>AUTO_SEARCH\<close>.
\<close>

theorem validate_type_only:
  "validate q1 t = validate q2 t \<and>
   (validate q1 t \<longleftrightarrow>
      t = Some SPOTIFY_ALBUM \<or> t = Some SPOTIFY_PLAYLIST \<or> t = Some SPOTIFY_SONG \<or>
      t = Some SPOTIFY_SEARCH \<or> t = Some AUTO \<or> t = Some AUTO_SEARCH)"
  by (auto simp: validate_def)

section \<open>The language of the URL pattern\<close>

lemma alnum_chars:
  "is_alnum x \<Longrightarrow> x \<noteq> CHR ''/''"
  "is_alnum x \<Longrightarrow> \<not> line_terminator x"
  by (auto simp: is_alnum_def alnum_def in_class_def line_terminator_def)

lemma letter_chars:
  "is_letter x \<Longrightarrow> x \<noteq> CHR ''/''"
  "is_letter x \<Longrightarrow> is_alnum x"
  by (auto simp: is_letter_def is_alnum_def alnum_def in_class_def)

text \<open>
  Repetition of a matcher that consumes one character at a time: the greedy run, when the
  continuation rejects every shorter one, and what any successful run looks like.
\<close>

lemma upto_greedy:
  assumes step: "\<And>k s c. m k (s, c) =
            (case s of [] \<Rightarrow> None | y # s' \<Rightarrow> if p y then k (s', g y c) else None)"
    and "list_all p xs" and "length xs \<le> n"
    and "r = [] \<or> \<not> p (hd r) \<or> length xs = n"
    and "k (r, fold g xs c) = None \<Longrightarrow> \<forall>j c'. j < length xs \<longrightarrow> k (drop j xs @ r, c') = None"
  shows "upto n m k (xs @ r, c) = k (r, fold g xs c)"
  using assms(2-)
proof (induction xs arbitrary: n c)
  case Nil
  show ?case
  proof (cases n)
    case 0
    then show ?thesis by simp
  next
    case (Suc n')
    with Nil(3) have "r = [] \<or> \<not> p (hd r)" by simp
    then have "m (upto n' m k) (r, c) = None"
      by (cases r) (auto simp: step)
    with Suc show ?thesis by simp
  qed
next
  case (Cons x xs)
  from Cons.prems(2) obtain n' where n: "n = Suc n'" and le: "length xs \<le> n'"
    by (cases n) auto
  from Cons.prems(1) have px: "p x" and pxs: "list_all p xs" by auto
  have edge: "r = [] \<or> \<not> p (hd r) \<or> length xs = n'"
    using Cons.prems(3) n by auto
  have fail': "k (r, fold g xs (g x c)) = None \<Longrightarrow>
                 \<forall>j c'. j < length xs \<longrightarrow> k (drop j xs @ r, c') = None"
  proof (intro allI impI)
    fix j c' assume a: "k (r, fold g xs (g x c)) = None" and j: "j < length xs"
    with Cons.prems(4) have "k (drop (Suc j) (x # xs) @ r, c') = None" by auto
    then show "k (drop j xs @ r, c') = None" by simp
  qed
  have ih: "upto n' m k (xs @ r, g x c) = k (r, fold g xs (g x c))"
    by (rule Cons.IH [OF pxs le edge fail'])
  show ?case
  proof (cases "k (r, fold g xs (g x c))")
    case None
    with Cons.prems(4) have "k (drop 0 (x # xs) @ r, c) = None" by auto
    with None show ?thesis
      by (simp add: n step px ih)
  next
    case (Some res)
    then show ?thesis
      by (simp add: n step px ih)
  qed
qed

lemma upto_inv:
  assumes step: "\<And>k s c. m k (s, c) =
            (case s of [] \<Rightarrow> None | y # s' \<Rightarrow> if p y then k (s', g y c) else None)"
    and "upto n m k (s, c) = Some res"
  shows "\<exists>xs r c'. s = xs @ r \<and> list_all p xs \<and> length xs \<le> n \<and> k (r, c') = Some res"
  using assms(2)
proof (induction n arbitrary: s c)
  case 0
  then have "s = [] @ s \<and> list_all p [] \<and> length ([]::string) \<le> 0 \<and> k (s, c) = Some res"
    by simp
  then show ?case by blast
next
  case (Suc n)
  show ?case
  proof (cases "m (upto n m k) (s, c)")
    case None
    with Suc.prems have "k (s, c) = Some res" by simp
    then have "s = [] @ s \<and> list_all p [] \<and> length ([]::string) \<le> Suc n \<and> k (s, c) = Some res"
      by simp
    then show ?thesis by blast
  next
    case (Some r')
    with Suc.prems have r': "r' = res" by simp
    from Some obtain y s' where s: "s = y # s'" and py: "p y"
      and u: "upto n m k (s', g y c) = Some res"
      unfolding r' by (cases s) (auto simp: step split: if_splits)
    from Suc.IH [OF u] obtain xs r c' where
      "s' = xs @ r" "list_all p xs" "length xs \<le> n" "k (r, c') = Some res"
      by blast
    with s py have "s = (y # xs) @ r \<and> list_all p (y # xs) \<and> length (y # xs) \<le> Suc n \<and>
        k (r, c') = Some res"
      by simp
    then show ?thesis by blast
  qed
qed


text \<open>The three one-character matchers of the pattern.\<close>

lemma step_cls:
  "rmatch len (Cls rs) k (s, c) =
     (case s of [] \<Rightarrow> None | y # s' \<Rightarrow> if in_class rs y then k (s', (\<lambda>y c. c) y c) else None)"
  by (simp split: list.split)

lemma step_dot:
  "rmatch len Dot k (s, c) =
     (case s of [] \<Rightarrow> None
      | y # s' \<Rightarrow> if \<not> line_terminator y then k (s', (\<lambda>y c. c) y c) else None)"
  by (simp split: list.split)

lemma step_letter:
  "rmatch len (Grp 2 (Alt (Cls [(CHR ''a'', CHR ''z'')]) (Cls [(CHR ''A'', CHR ''Z'')]))) k (s, c) =
     (case s of [] \<Rightarrow> None
      | y # s' \<Rightarrow> if is_letter y then k (s', (\<lambda>y c. c(2 \<mapsto> [y])) y c) else None)"
  by (cases s) (auto simp: is_letter_def split: option.split)

lemma fold_keep: "fold (\<lambda>y c. c) xs c = c"
  by (induction xs) simp_all

lemma lit_append: "rmatch len (Lit w) k (w @ s, c) = k (s, c)"
  by simp

lemma lit_first:
  "x \<noteq> y \<Longrightarrow> rmatch len (Lit (x # w)) k (y # s, c) = None"
  "rmatch len (Lit (x # w)) k ([], c) = None"
  by simp_all

lemma lit_inv:
  "rmatch len (Lit w) k (s, c) = Some r \<Longrightarrow> \<exists>s'. s = w @ s' \<and> k (s', c) = Some r"
  by (auto split: if_splits intro: exI [of _ "drop (length w) s"])
     (metis append_take_drop_id)

lemma star_dot_eol:
  assumes "list_all (\<lambda>x. \<not> line_terminator x) t"
  shows "rmatch len (Seq (Star Dot) Eol) k (t, c) = k ([], c)"
proof -
  have "upto (length t) (rmatch len Dot) (rmatch len Eol k) (t @ [], c) =
          rmatch len Eol k ([], fold (\<lambda>y c. c) t c)"
    by (rule upto_greedy [where p = "\<lambda>x. \<not> line_terminator x", OF step_dot assms])
       simp_all
  then show ?thesis
    by (simp add: fold_keep)
qed

lemma plus_cls:
  assumes "list_all (in_class rs) xs" and "xs \<noteq> []"
    and "r = [] \<or> \<not> in_class rs (hd r)"
    and "k (r, c) = None \<Longrightarrow> \<forall>j c'. j < length xs \<longrightarrow> k (drop j xs @ r, c') = None"
  shows "rmatch len (Plus (Cls rs)) k (xs @ r, c) = k (r, c)"
proof -
  from assms(1,2) obtain x xs' where xs: "xs = x # xs'" and px: "in_class rs x"
    and pxs: "list_all (in_class rs) xs'"
    by (cases xs) auto
  have fail: "k (r, fold (\<lambda>y c. c) xs' c) = None \<Longrightarrow>
                \<forall>j c'. j < length xs' \<longrightarrow> k (drop j xs' @ r, c') = None"
  proof (intro allI impI)
    fix j c' assume "k (r, fold (\<lambda>y c. c) xs' c) = None" and j: "j < length xs'"
    with assms(4) have "\<forall>j c'. j < length xs \<longrightarrow> k (drop j xs @ r, c') = None"
      by (simp add: fold_keep)
    moreover from j have "Suc j < length xs"
      by (simp add: xs)
    ultimately have "k (drop (Suc j) xs @ r, c') = None"
      by blast
    then show "k (drop j xs' @ r, c') = None"
      by (simp add: xs)
  qed
  have "upto (length (xs' @ r)) (rmatch len (Cls rs)) k (xs' @ r, c) =
          k (r, fold (\<lambda>y c. c) xs' c)"
    using assms(3) by (intro upto_greedy [where p = "in_class rs", OF step_cls pxs _ _ fail]) auto
  then show ?thesis
    by (simp add: xs px fold_keep)
qed

lemma plus_cls_inv:
  assumes "rmatch len (Plus (Cls rs)) k (s, c) = Some res"
  shows "\<exists>xs r c'. s = xs @ r \<and> xs \<noteq> [] \<and> list_all (in_class rs) xs \<and> k (r, c') = Some res"
proof -
  from assms obtain y s' where s: "s = y # s'" and py: "in_class rs y"
    and u: "upto (length s') (rmatch len (Cls rs)) k (s', c) = Some res"
    by (cases s) (auto split: if_splits)
  from upto_inv [where p = "in_class rs", OF step_cls u] obtain xs r c' where
    "s' = xs @ r" "list_all (in_class rs) xs" "k (r, c') = Some res"
    by blast
  with s py have "s = (y # xs) @ r \<and> y # xs \<noteq> [] \<and> list_all (in_class rs) (y # xs) \<and>
      k (r, c') = Some res"
    by simp
  then show ?thesis by blast
qed


text \<open>Each piece of the pattern on an input of its own form.\<close>

lemma slash_after_drop:
  assumes "list_all P xs" and "\<And>x. P x \<Longrightarrow> x \<noteq> CHR ''/''" and "j < length xs"
  shows "rmatch len (Lit ''/'') K (drop j xs @ r, c') = None"
proof -
  from assms(3) have d: "drop j xs = xs ! j # drop (Suc j) xs"
    by (simp add: Cons_nth_drop_Suc)
  from assms(1,3) have "P (xs ! j)"
    by (simp add: list_all_length)
  with assms(2) have "xs ! j \<noteq> CHR ''/''" by blast
  then show ?thesis
    unfolding d by simp
qed

lemma take_consumed: "take (length (a @ s) - length s) (a @ s) = a"
  by simp

lemma user_forward:
  assumes "is_ident n"
  shows "rmatch len re_user K (''user/'' @ n @ ''/'' @ s, c) = K (s, c)"
proof -
  from assms have a: "list_all (in_class alnum) n" and ne: "n \<noteq> []"
    by (simp_all add: is_ident_def is_alnum_def [abs_def])
  have na: "\<And>x. in_class alnum x \<Longrightarrow> x \<noteq> CHR ''/''"
    using alnum_chars(1) by (simp add: is_alnum_def)
  have "rmatch len (Plus (Cls alnum)) (rmatch len (Lit ''/'') K) (n @ (''/'' @ s), c) =
          rmatch len (Lit ''/'') K (''/'' @ s, c)"
  proof (rule plus_cls [OF a ne])
    show "''/'' @ s = [] \<or> \<not> in_class alnum (hd (''/'' @ s))"
      using na by auto
    show "\<forall>j c'. j < length n \<longrightarrow> rmatch len (Lit ''/'') K (drop j n @ ''/'' @ s, c') = None"
      using slash_after_drop [OF a na] by blast
  qed
  then show ?thesis
    by (simp add: re_user_def)
qed

lemma locale_forward:
  assumes "list_all is_letter ls" and "length ls \<le> 3"
  shows "rmatch len re_locale K (''intl-'' @ ls @ ''/'' @ s, c) =
           K (s, (fold (\<lambda>y c. c(2 \<mapsto> [y])) ls c)(1 \<mapsto> ''intl-'' @ ls @ ''/''))"
proof -
  let ?K1 = "\<lambda>st'. K (fst st',
     (snd st')(1 \<mapsto> take (length ((''intl-'' @ ls @ ''/'') @ s) - length (fst st'))
                          ((''intl-'' @ ls @ ''/'') @ s)))"
  let ?L = "Grp 2 (Alt (Cls [(CHR ''a'', CHR ''z'')]) (Cls [(CHR ''A'', CHR ''Z'')]))"
  have "upto 3 (rmatch len ?L) (rmatch len (Lit ''/'') ?K1) (ls @ (''/'' @ s), c) =
          rmatch len (Lit ''/'') ?K1 (''/'' @ s, fold (\<lambda>y c. c(2 \<mapsto> [y])) ls c)"
  proof (rule upto_greedy [where p = is_letter, OF step_letter assms])
    show "''/'' @ s = [] \<or> \<not> is_letter (hd (''/'' @ s)) \<or> length ls = 3"
      using letter_chars(1) by auto
    show "\<forall>j c'. j < length ls \<longrightarrow>
            rmatch len (Lit ''/'') ?K1 (drop j ls @ ''/'' @ s, c') = None"
      using slash_after_drop [OF assms(1) letter_chars(1)] by blast
  qed
  also have "\<dots> = K (s, (fold (\<lambda>y c. c(2 \<mapsto> [y])) ls c)(1 \<mapsto> ''intl-'' @ ls @ ''/''))"
    by (simp only: lit_append fst_conv snd_conv take_consumed)
  finally show ?thesis
    by (simp add: re_locale_def)
qed

lemma seq_unfold: "rmatch len (Seq a b) k st = rmatch len a (rmatch len b k) st"
  by simp

lemma kind_forward:
  assumes "is_kind k"
  shows "rmatch len re_kind K (k @ s, c) = K (s, c(3 \<mapsto> k))"
  using assms unfolding is_kind_def
  by (elim disjE) (simp_all add: re_kind_def split: option.split)

lemma sep_forward:
  assumes "sep = CHR ''/'' \<or> sep = CHR '':''"
  shows "rmatch len (Cls [(CHR ''/'', CHR ''/''), (CHR '':'', CHR '':'')]) K (sep # s, c) = K (s, c)"
  using assms by (auto simp: in_class_def)

lemma id_forward:
  assumes "is_ident i" and "t = [] \<or> \<not> is_alnum (hd t)"
    and "list_all (\<lambda>x. \<not> line_terminator x) t"
  shows "rmatch len (Grp 4 (Plus (Cls alnum))) (rmatch len (Seq (Star Dot) Eol) Some) (i @ t, c) =
           Some ([], c(4 \<mapsto> i))"
proof -
  from assms(1) have a: "list_all (in_class alnum) i" and ne: "i \<noteq> []"
    by (simp_all add: is_ident_def is_alnum_def [abs_def])
  have edge: "t = [] \<or> \<not> in_class alnum (hd t)"
    using assms(2) by (simp add: is_alnum_def)
  let ?K = "\<lambda>st'. rmatch len (Seq (Star Dot) Eol) Some
              (fst st', (snd st')(4 \<mapsto> take (length (fst (i @ t, c)) - length (fst st')) (fst (i @ t, c))))"
  have end_ok: "?K (t, c) = Some ([], c(4 \<mapsto> i))"
    by (simp only: fst_conv snd_conv take_consumed star_dot_eol [OF assms(3)])
  have "rmatch len (Plus (Cls alnum)) ?K (i @ t, c) = ?K (t, c)"
    by (rule plus_cls [OF a ne edge]) (simp only: end_ok option.distinct)
  with end_ok have "rmatch len (Plus (Cls alnum)) ?K (i @ t, c) = Some ([], c(4 \<mapsto> i))"
    by simp
  then show ?thesis
    by (simp only: rmatch.simps)
qed

lemma tail_forward:
  assumes "is_kind k" and "sep = CHR ''/'' \<or> sep = CHR '':''" and "is_ident i"
    and "t = [] \<or> \<not> is_alnum (hd t)" and "list_all (\<lambda>x. \<not> line_terminator x) t"
  shows "rmatch len re_tail Some (k @ sep # i @ t, c) = Some ([], c(3 \<mapsto> k, 4 \<mapsto> i))"
proof -
  let ?sep = "Cls [(CHR ''/'', CHR ''/''), (CHR '':'', CHR '':'')]"
  let ?id = "Grp 4 (Plus (Cls alnum))"
  let ?rest = "Seq (Star Dot) Eol"
  have "rmatch len re_tail Some (k @ sep # i @ t, c) =
          rmatch len re_kind (rmatch len (Seq ?sep (Seq ?id ?rest)) Some) (k @ sep # i @ t, c)"
    by (simp only: re_tail_def seq_unfold)
  also have "\<dots> = rmatch len (Seq ?sep (Seq ?id ?rest)) Some (sep # i @ t, c(3 \<mapsto> k))"
    by (rule kind_forward [OF assms(1)])
  also have "\<dots> = rmatch len ?sep (rmatch len (Seq ?id ?rest) Some) (sep # i @ t, c(3 \<mapsto> k))"
    by (rule seq_unfold)
  also have "\<dots> = rmatch len (Seq ?id ?rest) Some (i @ t, c(3 \<mapsto> k))"
    by (rule sep_forward [OF assms(2)])
  also have "\<dots> = rmatch len ?id (rmatch len ?rest Some) (i @ t, c(3 \<mapsto> k))"
    by (rule seq_unfold)
  also have "\<dots> = Some ([], c(3 \<mapsto> k, 4 \<mapsto> i))"
    by (rule id_forward [OF assms(3-5)])
  finally show ?thesis .
qed


lemma locale_miss: "y \<noteq> CHR ''i'' \<Longrightarrow> rmatch len re_locale K (y # s, c) = None"
  by (simp add: re_locale_def)

lemma user_miss: "y \<noteq> CHR ''u'' \<Longrightarrow> rmatch len re_user K (y # s, c) = None"
  by (simp add: re_user_def)

lemma kind_first:
  "is_kind k \<Longrightarrow>
   \<exists>y k'. k = y # k' \<and> y \<noteq> CHR ''i'' \<and> y \<noteq> CHR ''u'' \<and> y \<noteq> CHR ''h'' \<and> y \<noteq> CHR ''s''"
  by (auto simp: is_kind_def)

lemma opt_take: "rmatch len a K st = Some r \<Longrightarrow> rmatch len (Opt a) K st = Some r"
  by simp

lemma opt_skip: "rmatch len a K st = None \<Longrightarrow> rmatch len (Opt a) K st = K st"
  by simp

lemma user_opt_forward:
  assumes "user_part u" and "is_kind k" and "sep = CHR ''/'' \<or> sep = CHR '':''" and "is_ident i"
    and "t = [] \<or> \<not> is_alnum (hd t)" and "list_all (\<lambda>x. \<not> line_terminator x) t"
  shows "rmatch len (Opt re_user) (rmatch len re_tail Some) (u @ k @ sep # i @ t, c) =
           Some ([], c(3 \<mapsto> k, 4 \<mapsto> i))"
proof (cases "u = []")
  case True
  from kind_first [OF assms(2)] obtain y k' where k: "k = y # k'" and y: "y \<noteq> CHR ''u''"
    by blast
  have "rmatch len re_user (rmatch len re_tail Some) (k @ sep # i @ t, c) = None"
    unfolding k using y by (simp add: user_miss)
  then have "rmatch len (Opt re_user) (rmatch len re_tail Some) (k @ sep # i @ t, c) =
               rmatch len re_tail Some (k @ sep # i @ t, c)"
    by (rule opt_skip)
  with True show ?thesis
    by (simp only: append_Nil tail_forward [OF assms(2-)])
next
  case False
  with assms(1) obtain n where u: "u = ''user/'' @ n @ ''/''" and n: "is_ident n"
    by (auto simp: user_part_def)
  have "rmatch len re_user (rmatch len re_tail Some) (''user/'' @ n @ ''/'' @ (k @ sep # i @ t), c) =
          Some ([], c(3 \<mapsto> k, 4 \<mapsto> i))"
    by (simp only: user_forward [OF n] tail_forward [OF assms(2-)])
  then have "rmatch len (Opt re_user) (rmatch len re_tail Some)
               (''user/'' @ n @ ''/'' @ (k @ sep # i @ t), c) = Some ([], c(3 \<mapsto> k, 4 \<mapsto> i))"
    by (rule opt_take)
  then show ?thesis
    by (simp add: u)
qed

lemma locale_opt_forward:
  assumes "locale_part l" and "user_part u" and "is_kind k"
    and "sep = CHR ''/'' \<or> sep = CHR '':''" and "is_ident i"
    and "t = [] \<or> \<not> is_alnum (hd t)" and "list_all (\<lambda>x. \<not> line_terminator x) t"
  shows "\<exists>c'. rmatch len (Opt re_locale) (rmatch len (Opt re_user) (rmatch len re_tail Some))
                 (l @ u @ k @ sep # i @ t, c) = Some ([], c'(3 \<mapsto> k, 4 \<mapsto> i))"
proof (cases "l = []")
  case True
  have "\<exists>y s. u @ k @ sep # i @ t = y # s \<and> y \<noteq> CHR ''i''"
  proof (cases "u = []")
    case True
    with kind_first [OF assms(3)] show ?thesis by auto
  next
    case False
    with assms(2) show ?thesis by (auto simp: user_part_def)
  qed
  then obtain y s where ys: "u @ k @ sep # i @ t = y # s" and y: "y \<noteq> CHR ''i''"
    by blast
  have "rmatch len re_locale (rmatch len (Opt re_user) (rmatch len re_tail Some))
          (u @ k @ sep # i @ t, c) = None"
    unfolding ys using y by (rule locale_miss)
  then have "rmatch len (Opt re_locale) (rmatch len (Opt re_user) (rmatch len re_tail Some))
          (u @ k @ sep # i @ t, c) =
        rmatch len (Opt re_user) (rmatch len re_tail Some) (u @ k @ sep # i @ t, c)"
    by (rule opt_skip)
  with True user_opt_forward [OF assms(2-), of len c] show ?thesis
    by auto
next
  case False
  with assms(1) obtain ls where l: "l = ''intl-'' @ ls @ ''/''" and ls: "list_all is_letter ls"
    and len: "length ls \<le> 3"
    by (auto simp: locale_part_def)
  let ?c = "(fold (\<lambda>y c. c(2 \<mapsto> [y])) ls c)(1 \<mapsto> ''intl-'' @ ls @ ''/'')"
  have "rmatch len re_locale (rmatch len (Opt re_user) (rmatch len re_tail Some))
          (''intl-'' @ ls @ ''/'' @ (u @ k @ sep # i @ t), c) = Some ([], ?c(3 \<mapsto> k, 4 \<mapsto> i))"
    by (simp only: locale_forward [OF ls len] user_opt_forward [OF assms(2-)])
  then have "rmatch len (Opt re_locale) (rmatch len (Opt re_user) (rmatch len re_tail Some))
          (''intl-'' @ ls @ ''/'' @ (u @ k @ sep # i @ t), c) = Some ([], ?c(3 \<mapsto> k, 4 \<mapsto> i))"
    by (rule opt_take)
  then show ?thesis
    unfolding l by (simp only: append_assoc) blast
qed

lemma head_tail_forward:
  assumes "head_part h" and "is_kind k"
    and "sep = CHR ''/'' \<or> sep = CHR '':''" and "is_ident i"
    and "t = [] \<or> \<not> is_alnum (hd t)" and "list_all (\<lambda>x. \<not> line_terminator x) t"
  shows "\<exists>c'. rmatch len (Seq re_head re_tail) Some (h @ k @ sep # i @ t, c) =
                Some ([], c'(3 \<mapsto> k, 4 \<mapsto> i))"
proof (cases "h = ''spotify:''")
  case True
  have "rmatch len (Seq re_head re_tail) Some (''spotify:'' @ (k @ sep # i @ t), c) =
          rmatch len re_tail Some (k @ sep # i @ t, c)"
    by (simp add: re_head_def)
  with True tail_forward [OF assms(2-), of len c] show ?thesis
    by auto
next
  case False
  with assms(1) obtain l u where h: "h = ''https://open.spotify.com/'' @ l @ u"
    and l: "locale_part l" and u: "user_part u"
    by (auto simp: head_part_def)
  from locale_opt_forward [OF l u assms(2-), of len c] obtain c' where
    ok: "rmatch len (Opt re_locale) (rmatch len (Opt re_user) (rmatch len re_tail Some))
                 (l @ u @ k @ sep # i @ t, c) = Some ([], c'(3 \<mapsto> k, 4 \<mapsto> i))"
    by blast
  have "rmatch len (Seq (Lit ''https://open.spotify.com/'') (Seq (Opt re_locale) (Opt re_user)))
          (rmatch len re_tail Some)
          (''https://open.spotify.com/'' @ (l @ u @ k @ sep # i @ t), c) =
        rmatch len (Opt re_locale) (rmatch len (Opt re_user) (rmatch len re_tail Some))
          (l @ u @ k @ sep # i @ t, c)"
    by (simp only: seq_unfold lit_append)
  with ok have "rmatch len (Seq re_head re_tail) Some
          (''https://open.spotify.com/'' @ (l @ u @ k @ sep # i @ t), c) =
        Some ([], c'(3 \<mapsto> k, 4 \<mapsto> i))"
    by (simp only: seq_unfold re_head_def rmatch.simps(7) option.case)
  then show ?thesis
    unfolding h by (simp only: append_assoc) blast
qed


text \<open>Only the attempt at index 0 passes \<open>^\<close>.\<close>

lemma first_some_none: "(\<And>x. x \<in> set xs \<Longrightarrow> f x = None) \<Longrightarrow> first_some (map f xs) = None"
  by (induction xs) simp_all

lemma exec_re:
  "exec re q = map_option snd (rmatch (length q) (Seq re_head re_tail) Some (q, Map.empty))"
proof -
  let ?f = "\<lambda>i. rmatch (length q) re Some (drop i q, Map.empty)"
  have later: "\<And>i. i \<in> set [Suc 0 ..< Suc (length q)] \<Longrightarrow> ?f i = None"
    by (auto simp: re_def)
  have "first_some (map ?f [0 ..< Suc (length q)]) =
          first_some (?f 0 # map ?f [Suc 0 ..< Suc (length q)])"
    by (simp only: upt_conv_Cons [of 0] zero_less_Suc list.map)
  also have "\<dots> = ?f 0"
    using first_some_none [of "[Suc 0 ..< Suc (length q)]" ?f, OF later]
    by (cases "?f 0") simp_all
  also have "\<dots> = rmatch (length q) (Seq re_head re_tail) Some (q, Map.empty)"
    by (simp add: re_def)
  finally show ?thesis
    by (simp only: exec_def)
qed

text \<open>What a successful match of each piece says about the input.\<close>

lemma alt_inv:
  "rmatch len (Alt a b) K st = Some r \<Longrightarrow> rmatch len a K st = Some r \<or> rmatch len b K st = Some r"
  by (simp split: option.splits)

lemma opt_inv:
  "rmatch len (Opt a) K st = Some r \<Longrightarrow> rmatch len a K st = Some r \<or> K st = Some r"
  by (simp split: option.splits)

lemma kind_inv:
  assumes "rmatch len re_kind K (s, c) = Some r"
  shows "\<exists>k s' c'. s = k @ s' \<and> is_kind k \<and> K (s', c') = Some r"
proof -
  let ?K = "\<lambda>st'. K (fst st', (snd st')(3 \<mapsto> take (length (fst (s, c)) - length (fst st')) (fst (s, c))))"
  from assms have "rmatch len (Alt (Lit ''album'') (Alt (Lit ''playlist'') (Lit ''track''))) ?K (s, c) = Some r"
    by (simp only: re_kind_def rmatch.simps)
  then consider "rmatch len (Lit ''album'') ?K (s, c) = Some r"
    | "rmatch len (Lit ''playlist'') ?K (s, c) = Some r"
    | "rmatch len (Lit ''track'') ?K (s, c) = Some r"
    by (blast dest: alt_inv)
  then show ?thesis
  proof cases
    case 1
    from lit_inv [OF 1] obtain s' where "s = ''album'' @ s'" "?K (s', c) = Some r" by blast
    then have "s = ''album'' @ s' \<and> is_kind ''album'' \<and>
        K (s', c(3 \<mapsto> take (length (fst (s, c)) - length s') (fst (s, c)))) = Some r"
      by (simp add: is_kind_def)
    then show ?thesis by blast
  next
    case 2
    from lit_inv [OF 2] obtain s' where "s = ''playlist'' @ s'" "?K (s', c) = Some r" by blast
    then have "s = ''playlist'' @ s' \<and> is_kind ''playlist'' \<and>
        K (s', c(3 \<mapsto> take (length (fst (s, c)) - length s') (fst (s, c)))) = Some r"
      by (simp add: is_kind_def)
    then show ?thesis by blast
  next
    case 3
    from lit_inv [OF 3] obtain s' where "s = ''track'' @ s'" "?K (s', c) = Some r" by blast
    then have "s = ''track'' @ s' \<and> is_kind ''track'' \<and>
        K (s', c(3 \<mapsto> take (length (fst (s, c)) - length s') (fst (s, c)))) = Some r"
      by (simp add: is_kind_def)
    then show ?thesis by blast
  qed
qed

lemma in_class_two:
  "in_class [(a, a), (b, b)] x \<longleftrightarrow> x = a \<or> x = b"
  by (auto simp: in_class_def dest: antisym)

lemma sep_inv:
  assumes "rmatch len (Cls [(CHR ''/'', CHR ''/''), (CHR '':'', CHR '':'')]) K (s, c) = Some r"
  shows "\<exists>sep s'. s = sep # s' \<and> (sep = CHR ''/'' \<or> sep = CHR '':'') \<and> K (s', c) = Some r"
  using assms by (cases s) (auto simp: in_class_two split: if_splits)

lemma id_rest_inv:
  assumes "rmatch len (Grp 4 (Plus (Cls alnum))) (rmatch len (Seq (Star Dot) Eol) K) (s, c) = Some r"
  shows "\<exists>i t. s = i @ t \<and> is_ident i \<and> list_all (\<lambda>x. \<not> line_terminator x) t"
proof -
  let ?K = "\<lambda>st'. rmatch len (Seq (Star Dot) Eol) K
      (fst st', (snd st')(4 \<mapsto> take (length (fst (s, c)) - length (fst st')) (fst (s, c))))"
  from assms have "rmatch len (Plus (Cls alnum)) ?K (s, c) = Some r"
    by (simp only: rmatch.simps)
  from plus_cls_inv [OF this] obtain i t c' where
    s: "s = i @ t" and i: "i \<noteq> []" "list_all (in_class alnum) i" and k: "?K (t, c') = Some r"
    by blast
  from k obtain c'' where "upto (length t) (rmatch len Dot) (rmatch len Eol K) (t, c'') = Some r"
    by simp
  from upto_inv [where p = "\<lambda>x. \<not> line_terminator x", OF step_dot this]
  obtain xs r' c3 where t: "t = xs @ r'" and xs: "list_all (\<lambda>x. \<not> line_terminator x) xs"
    and e: "rmatch len Eol K (r', c3) = Some r"
    by blast
  from e have "r' = []"
    by (simp split: if_splits)
  with t xs have "list_all (\<lambda>x. \<not> line_terminator x) t"
    by simp
  with s i show ?thesis
    by (auto simp: is_ident_def is_alnum_def [abs_def])
qed

lemma tail_inv:
  assumes "rmatch len re_tail K (s, c) = Some r"
  shows "\<exists>k sep i t. s = k @ sep # i @ t \<and> is_kind k \<and> (sep = CHR ''/'' \<or> sep = CHR '':'') \<and>
           is_ident i \<and> list_all (\<lambda>x. \<not> line_terminator x) t"
proof -
  let ?sep = "Cls [(CHR ''/'', CHR ''/''), (CHR '':'', CHR '':'')]"
  let ?id = "Grp 4 (Plus (Cls alnum))"
  let ?rest = "Seq (Star Dot) Eol"
  from assms have "rmatch len re_kind (rmatch len (Seq ?sep (Seq ?id ?rest)) K) (s, c) = Some r"
    by (simp only: re_tail_def seq_unfold)
  from kind_inv [OF this] obtain k s1 c1 where s: "s = k @ s1" and k: "is_kind k"
    and 1: "rmatch len (Seq ?sep (Seq ?id ?rest)) K (s1, c1) = Some r"
    by blast
  from 1 have "rmatch len ?sep (rmatch len (Seq ?id ?rest) K) (s1, c1) = Some r"
    by (simp only: seq_unfold)
  from sep_inv [OF this] obtain sep s2 where s1: "s1 = sep # s2"
    and sep: "sep = CHR ''/'' \<or> sep = CHR '':''"
    and 2: "rmatch len (Seq ?id ?rest) K (s2, c1) = Some r"
    by blast
  from 2 have "rmatch len ?id (rmatch len ?rest K) (s2, c1) = Some r"
    by (simp only: seq_unfold)
  from id_rest_inv [OF this] obtain i t where "s2 = i @ t" "is_ident i"
    "list_all (\<lambda>x. \<not> line_terminator x) t"
    by blast
  with s k s1 sep show ?thesis
    by blast
qed

lemma user_inv:
  assumes "rmatch len re_user K (s, c) = Some r"
  shows "\<exists>n s' c'. s = ''user/'' @ n @ ''/'' @ s' \<and> is_ident n \<and> K (s', c') = Some r"
proof -
  from assms have "rmatch len (Lit ''user/'') (rmatch len (Seq (Plus (Cls alnum)) (Lit ''/'')) K) (s, c) = Some r"
    by (simp only: re_user_def seq_unfold)
  from lit_inv [OF this] obtain s1 where s: "s = ''user/'' @ s1"
    and 1: "rmatch len (Seq (Plus (Cls alnum)) (Lit ''/'')) K (s1, c) = Some r"
    by blast
  from 1 have "rmatch len (Plus (Cls alnum)) (rmatch len (Lit ''/'') K) (s1, c) = Some r"
    by (simp only: seq_unfold)
  from plus_cls_inv [OF this] obtain n s2 c' where s1: "s1 = n @ s2" and n: "n \<noteq> []"
    "list_all (in_class alnum) n" and 2: "rmatch len (Lit ''/'') K (s2, c') = Some r"
    by blast
  from lit_inv [OF 2] obtain s3 where "s2 = ''/'' @ s3" "K (s3, c') = Some r"
    by blast
  with s s1 n have "s = ''user/'' @ n @ ''/'' @ s3 \<and> is_ident n \<and> K (s3, c') = Some r"
    by (simp add: is_ident_def is_alnum_def [abs_def])
  then show ?thesis by blast
qed

lemma locale_inv:
  assumes "rmatch len re_locale K (s, c) = Some r"
  shows "\<exists>ls s' c'. s = ''intl-'' @ ls @ ''/'' @ s' \<and> length ls \<le> 3 \<and> list_all is_letter ls \<and>
           K (s', c') = Some r"
proof -
  let ?K = "\<lambda>st'. K (fst st', (snd st')(1 \<mapsto> take (length (fst (s, c)) - length (fst st')) (fst (s, c))))"
  let ?L = "Grp 2 (Alt (Cls [(CHR ''a'', CHR ''z'')]) (Cls [(CHR ''A'', CHR ''Z'')]))"
  from assms have "rmatch len (Lit ''intl-'') (rmatch len (Seq (Upto 3 ?L) (Lit ''/'')) ?K) (s, c) = Some r"
    by (simp only: re_locale_def rmatch.simps)
  from lit_inv [OF this] obtain s1 where s: "s = ''intl-'' @ s1"
    and 1: "rmatch len (Seq (Upto 3 ?L) (Lit ''/'')) ?K (s1, c) = Some r"
    by blast
  from 1 have "upto 3 (rmatch len ?L) (rmatch len (Lit ''/'') ?K) (s1, c) = Some r"
    by (simp only: rmatch.simps)
  from upto_inv [where p = is_letter, OF step_letter this]
  obtain ls s2 c' where s1: "s1 = ls @ s2" and ls: "list_all is_letter ls" "length ls \<le> 3"
    and 2: "rmatch len (Lit ''/'') ?K (s2, c') = Some r"
    by blast
  from lit_inv [OF 2] obtain s3 where s2: "s2 = ''/'' @ s3" and "?K (s3, c') = Some r"
    by blast
  then obtain c'' where "K (s3, c'') = Some r"
    by simp
  with s s1 s2 ls have "s = ''intl-'' @ ls @ ''/'' @ s3 \<and> length ls \<le> 3 \<and> list_all is_letter ls \<and>
      K (s3, c'') = Some r"
    by simp
  then show ?thesis by blast
qed

lemma head_inv:
  assumes "rmatch len re_head K (s, c) = Some r"
  shows "\<exists>h s' c'. s = h @ s' \<and> head_part h \<and> K (s', c') = Some r"
proof -
  from assms consider
      (url) "rmatch len (Seq (Lit ''https://open.spotify.com/'') (Seq (Opt re_locale) (Opt re_user)))
               K (s, c) = Some r"
    | (scheme) "rmatch len (Lit ''spotify:'') K (s, c) = Some r"
    unfolding re_head_def by (blast dest: alt_inv)
  then show ?thesis
  proof cases
    case scheme
    from lit_inv [OF scheme] obtain s' where "s = ''spotify:'' @ s'" "K (s', c) = Some r"
      by blast
    then have "s = ''spotify:'' @ s' \<and> head_part ''spotify:'' \<and> K (s', c) = Some r"
      by (simp add: head_part_def)
    then show ?thesis by blast
  next
    case url
    then have "rmatch len (Lit ''https://open.spotify.com/'')
        (rmatch len (Seq (Opt re_locale) (Opt re_user)) K) (s, c) = Some r"
      by (simp only: seq_unfold)
    from lit_inv [OF this] obtain s1 where s: "s = ''https://open.spotify.com/'' @ s1"
      and 1: "rmatch len (Seq (Opt re_locale) (Opt re_user)) K (s1, c) = Some r"
      by blast
    from 1 have 2: "rmatch len (Opt re_locale) (rmatch len (Opt re_user) K) (s1, c) = Some r"
      by (simp only: seq_unfold)
    have "\<exists>l s2 c2. s1 = l @ s2 \<and> locale_part l \<and> rmatch len (Opt re_user) K (s2, c2) = Some r"
    proof -
      from opt_inv [OF 2] consider
          "rmatch len re_locale (rmatch len (Opt re_user) K) (s1, c) = Some r"
        | "rmatch len (Opt re_user) K (s1, c) = Some r"
        by blast
      then show ?thesis
      proof cases
        case 1
        from locale_inv [OF 1] obtain ls s2 c2 where "s1 = ''intl-'' @ ls @ ''/'' @ s2"
          "length ls \<le> 3" "list_all is_letter ls" "rmatch len (Opt re_user) K (s2, c2) = Some r"
          by blast
        then have "s1 = (''intl-'' @ ls @ ''/'') @ s2 \<and> locale_part (''intl-'' @ ls @ ''/'') \<and>
            rmatch len (Opt re_user) K (s2, c2) = Some r"
          by (auto simp: locale_part_def)
        then show ?thesis by blast
      next
        case 2
        then have "s1 = [] @ s1 \<and> locale_part [] \<and> rmatch len (Opt re_user) K (s1, c) = Some r"
          by (simp add: locale_part_def)
        then show ?thesis by blast
      qed
    qed
    then obtain l s2 c2 where s1: "s1 = l @ s2" and l: "locale_part l"
      and 3: "rmatch len (Opt re_user) K (s2, c2) = Some r"
      by blast
    have "\<exists>u s3 c3. s2 = u @ s3 \<and> user_part u \<and> K (s3, c3) = Some r"
    proof -
      from opt_inv [OF 3] consider "rmatch len re_user K (s2, c2) = Some r" | "K (s2, c2) = Some r"
        by blast
      then show ?thesis
      proof cases
        case 1
        from user_inv [OF 1] obtain n s3 c3 where "s2 = ''user/'' @ n @ ''/'' @ s3" "is_ident n"
          "K (s3, c3) = Some r"
          by blast
        then have "s2 = (''user/'' @ n @ ''/'') @ s3 \<and> user_part (''user/'' @ n @ ''/'') \<and>
            K (s3, c3) = Some r"
          by (auto simp: user_part_def)
        then show ?thesis by blast
      next
        case 2
        then have "s2 = [] @ s2 \<and> user_part [] \<and> K (s2, c2) = Some r"
          by (simp add: user_part_def)
        then show ?thesis by blast
      qed
    qed
    then obtain u s3 c3 where s2: "s2 = u @ s3" and u: "user_part u" and 4: "K (s3, c3) = Some r"
      by blast
    from s s1 s2 l u 4
    have "s = (''https://open.spotify.com/'' @ l @ u) @ s3 \<and>
        head_part (''https://open.spotify.com/'' @ l @ u) \<and> K (s3, c3) = Some r"
      by (auto simp: head_part_def)
    then show ?thesis by blast
  qed
qed


text \<open>The language of the whole pattern.\<close>

lemma accepted_parse:
  assumes "accepted q k i"
  shows "parse q = (Some k, Some i)"
proof -
  from assms obtain h sep t where q: "q = h @ k @ sep # i @ t" and c: "head_part h" "is_kind k"
      "sep = CHR ''/'' \<or> sep = CHR '':''" "is_ident i" "t = [] \<or> \<not> is_alnum (hd t)"
      "list_all (\<lambda>x. \<not> line_terminator x) t"
    by (auto simp: accepted_def)
  from head_tail_forward [OF c, of "length q" Map.empty] obtain c' where
    "rmatch (length q) (Seq re_head re_tail) Some (q, Map.empty) = Some ([], c'(3 \<mapsto> k, 4 \<mapsto> i))"
    unfolding q by blast
  then show ?thesis
    by (simp add: parse_def exec_re)
qed

lemma exec_accepted:
  assumes "exec re q = Some c"
  shows "\<exists>k i. accepted q k i"
proof -
  from assms obtain r where "rmatch (length q) (Seq re_head re_tail) Some (q, Map.empty) = Some r"
    by (auto simp: exec_re)
  then have "rmatch (length q) re_head (rmatch (length q) re_tail Some) (q, Map.empty) = Some r"
    by (simp only: seq_unfold)
  from head_inv [OF this] obtain h s' c' where q: "q = h @ s'" and h: "head_part h"
    and t: "rmatch (length q) re_tail Some (s', c') = Some r"
    by blast
  from tail_inv [OF t] obtain k sep i t where s': "s' = k @ sep # i @ t" and k: "is_kind k"
    and sep: "sep = CHR ''/'' \<or> sep = CHR '':''" and i: "is_ident i"
    and nl: "list_all (\<lambda>x. \<not> line_terminator x) t"
    by blast
  let ?i = "i @ takeWhile is_alnum t"
  let ?t = "dropWhile is_alnum t"
  have 1: "q = h @ k @ sep # ?i @ ?t"
    by (simp add: q s')
  have 2: "is_ident ?i"
    using i by (auto simp: is_ident_def list_all_iff dest: set_takeWhileD)
  have 3: "?t = [] \<or> \<not> is_alnum (hd ?t)"
    using hd_dropWhile [of is_alnum t] by blast
  have 4: "list_all (\<lambda>x. \<not> line_terminator x) ?t"
    using nl by (auto simp: list_all_iff dest: set_dropWhileD)
  from 1 2 3 4 h k sep have "accepted q k ?i"
    unfolding accepted_def by blast
  then show ?thesis by blast
qed

lemma documented_accepted:
  assumes "documented q k i"
  shows "accepted q k i"
proof -
  from assms have k: "is_kind k" and i: "is_ident i"
    by (simp_all add: documented_def)
  from assms consider
      (scheme) "q = ''spotify:'' @ k @ '':'' @ i"
    | (url) l u where "q = ''https://open.spotify.com/'' @ l @ u @ k @ ''/'' @ i"
        "two_letter_locale l" "user_part u"
    by (auto simp: documented_def)
  then show ?thesis
  proof cases
    case scheme
    then have "q = ''spotify:'' @ k @ CHR '':'' # i @ [] \<and> head_part ''spotify:''"
      by (simp add: head_part_def)
    with k i show ?thesis
      unfolding accepted_def by (intro conjI exI [of _ "''spotify:''"] exI [of _ "CHR '':''"]
        exI [of _ "[]"]) simp_all
  next
    case url
    from url(2) have "locale_part l"
      by (auto simp: two_letter_locale_def locale_part_def)
    with url(3) have "head_part (''https://open.spotify.com/'' @ l @ u)"
      by (auto simp: head_part_def)
    moreover from url(1) have "q = (''https://open.spotify.com/'' @ l @ u) @ k @ CHR ''/'' # i @ []"
      by simp
    ultimately show ?thesis
      using k i unfolding accepted_def
      by (intro conjI exI [of _ "''https://open.spotify.com/'' @ l @ u"] exI [of _ "CHR ''/''"]
        exI [of _ "[]"]) simp_all
  qed
qed

text \<open>
  Claim C3 says that \<open>parse\<close> classifies every URL of the documented grammar and gives the
  none variant for every other string. The second half fails: the pattern takes up to
  three letters after \<open>intl-\<close>, so a URL with a three-letter infix, which is not of any
  documented form, is classified as a track.
\<close>

theorem parse_beyond_documented:
  "\<not> documented_url ''https://open.spotify.com/intl-usa/track/abc'' \<and>
   parse ''https://open.spotify.com/intl-usa/track/abc'' = (Some ''track'', Some ''abc'')"
proof -
  have "parse ''https://open.spotify.com/intl-usa/track/abc'' = (Some ''track'', Some ''abc'')"
    by code_simp
  moreover have "\<not> documented_url ''https://open.spotify.com/intl-usa/track/abc''"
    by (auto simp: documented_url_def documented_def two_letter_locale_def user_part_def
          is_kind_def)
  ultimately show ?thesis by simp
qed

text \<open>
  Claim C3, amended. For every URL of the documented grammar, with ids and user names of
  ASCII letters and digits, \<open>parse\<close> returns the kind and the id. \<open>parse\<close> returns a pair
  \<open>(kind, id)\<close> exactly for the strings of the pattern's own language, which is wider: the
  infix is \<open>intl-\<close> with zero to three letters, the kind may be followed by \<open>/\<close> or \<open>:\<close> in
  both forms, and any text without a line break may follow the id, which is the longest
  run of letters and digits. For every other string, and only for those, it returns the
  none variant; it never returns anything else.
\<close>

theorem parse_language:
  "(documented q k i \<longrightarrow> parse q = (Some k, Some i)) \<and>
   (parse q = (Some k, Some i) \<longleftrightarrow> accepted q k i) \<and>
   (parse q = (None, None) \<longleftrightarrow> \<not> (\<exists>k i. accepted q k i)) \<and>
   (parse q = (None, None) \<or> (\<exists>k i. parse q = (Some k, Some i)))"
proof -
  have a: "\<And>k i. accepted q k i \<Longrightarrow> parse q = (Some k, Some i)"
    by (rule accepted_parse)
  have b: "parse q = (None, None) \<or> (\<exists>k i. accepted q k i)"
  proof (cases "exec re q")
    case None
    then show ?thesis by (simp add: parse_def)
  next
    case (Some c)
    then show ?thesis using exec_accepted by blast
  qed
  have c: "parse q = (Some k, Some i) \<Longrightarrow> accepted q k i"
  proof -
    assume p: "parse q = (Some k, Some i)"
    with b obtain k' i' where acc: "accepted q k' i'" by auto
    from a [OF acc] p have "k' = k" "i' = i" by simp_all
    with acc show "accepted q k i" by simp
  qed
  have d: "\<not> (\<exists>k i. accepted q k i) \<longleftrightarrow> parse q = (None, None)"
    using a b by auto
  from a b c d documented_accepted [of q k i] show ?thesis
    by blast
qed

lemma sample_documented:
  "documented ''https://open.spotify.com/intl-us/user/bob/playlist/abc123'' ''playlist'' ''abc123''"
proof -
  have l: "two_letter_locale ''intl-us/''"
    unfolding two_letter_locale_def
    by (intro disjI2 exI [of _ "CHR ''u''"] exI [of _ "CHR ''s''"])
       (simp add: is_letter_def in_class_def)
  have u: "user_part ''user/bob/''"
    unfolding user_part_def
    by (intro disjI2 exI [of _ "''bob''"]) (simp add: is_ident_def is_alnum_def alnum_def in_class_def)
  have i: "is_ident ''abc123''"
    by (simp add: is_ident_def is_alnum_def alnum_def in_class_def)
  show ?thesis
    unfolding documented_def using l u i
    by (intro conjI disjI2 exI [of _ "''intl-us/''"] exI [of _ "''user/bob/''"])
       (simp_all add: is_kind_def)
qed

theorem parse_language_witness:
  "documented ''https://open.spotify.com/intl-us/user/bob/playlist/abc123'' ''playlist'' ''abc123'' \<and>
   parse ''https://open.spotify.com/intl-us/user/bob/playlist/abc123'' =
     (Some ''playlist'', Some ''abc123'') \<and>
   accepted ''https://open.spotify.com/intl-us/user/bob/playlist/abc123'' ''playlist'' ''abc123''"
  using parse_language [of "''https://open.spotify.com/intl-us/user/bob/playlist/abc123''"
          "''playlist''" "''abc123''"] sample_documented
  by blast


section \<open>The heap after \<open>handle\<close>\<close>

text \<open>
  Creating the tracks of a list appends them to the heap in the order of the list; their
  addresses are the next free ones.
\<close>

lemma upt_shift: "[n ..< n + Suc k] = n # [Suc n ..< Suc n + k]"
  by (simp add: upt_conv_Cons)

lemma new_tracks_closed:
  "new_tracks f xs h =
     ([length (h_tracks h) ..< length (h_tracks h) + length xs],
      h\<lparr>h_tracks := h_tracks h @ map f xs\<rparr>)"
proof (induction xs arbitrary: h)
  case Nil
  then show ?case by simp
next
  case (Cons x xs)
  have "new_tracks f (x # xs) h =
          (length (h_tracks h) # [Suc (length (h_tracks h)) ..< Suc (length (h_tracks h)) + length xs],
           h\<lparr>h_tracks := h_tracks h @ f x # map f xs\<rparr>)"
    by (simp add: Cons.IH new_track_def)
  then show ?case
    by (simp only: upt_shift length_Cons list.map)
qed

lemma nth_after:
  "(xs @ [a, b]) ! Suc (length xs) = b"
  "(xs @ [a, b]) ! length xs = a"
  by (simp_all add: nth_append)

lemma map_nth_fresh:
  "map (\<lambda>a. (xs @ map f ys) ! a) [length xs ..< length xs + length ys] = map f ys"
  by (rule nth_equalityI) (simp_all add: nth_append)

text \<open>The two halves of the playlist and album branches, in closed form.\<close>

lemma primary_list_success:
  assumes "parse q = (Some kind, ident)" and "get ident = Value sp"
  shows "primary_list kind get mk h q ctx =
     ([mk ident],
      Some (\<lparr>h_tracks = h_tracks h @ map (primary_track ctx (Some (length (h_playlists h)))) (ap_tracks sp),
             h_playlists = h_playlists h @
               [(primary_playlist kind q (length (h_arrays h)) sp)\<lparr>pl_tracks := Suc (length (h_arrays h))\<rparr>],
             h_arrays = h_arrays h @
               [[], [length (h_tracks h) ..< length (h_tracks h) + length (ap_tracks sp)]]\<rparr>,
            \<lparr>i_playlist = Some (length (h_playlists h)), i_tracks = Suc (length (h_arrays h))\<rparr>))"
  using assms
  by (simp add: primary_list_def new_array_def new_playlist_def new_tracks_closed set_tracks_def
        Let_def)

lemma primary_list_fails:
  "\<not> (fst (parse q) = Some kind \<and> (\<exists>sp. get (snd (parse q)) = Value sp)) \<Longrightarrow>
   primary_list kind get mk h q ctx =
     (if fst (parse q) = Some kind then [mk (snd (parse q))] else [], None)"
  by (auto simp: primary_list_def split: prod.split outcome.split)

lemma fallback_list_empty:
  "priv_lib x = Some getData \<Longrightarrow> catch_noop (getData q) = None \<Longrightarrow>
   fallback_list x h q ctx =
     (h\<lparr>h_arrays := h_arrays h @ [[]]\<rparr>, [CallGetData q],
      Inr \<lparr>i_playlist = None, i_tracks = length (h_arrays h)\<rparr>)"
  by (simp add: fallback_list_def empty_response_def new_array_def)

lemma fallback_list_success:
  "priv_lib x = Some getData \<Longrightarrow> getData q = Value sp \<Longrightarrow> sc_trackList sp = Some items \<Longrightarrow>
   fallback_list x h q ctx =
     (\<lparr>h_tracks = h_tracks h @ map (item_track ctx q (length (h_playlists h))) items,
       h_playlists = h_playlists h @
         [(scraped_playlist q (length (h_arrays h)) sp)\<lparr>pl_tracks := Suc (length (h_arrays h))\<rparr>],
       h_arrays = h_arrays h @ [[], [length (h_tracks h) ..< length (h_tracks h) + length items]]\<rparr>,
      [CallGetData q],
      Inr \<lparr>i_playlist = Some (length (h_playlists h)), i_tracks = Suc (length (h_arrays h))\<rparr>)"
  by (simp add: fallback_list_def new_array_def new_playlist_def new_tracks_closed set_tracks_def
        Let_def)

lemma fallback_list_broken:
  "priv_lib x = Some getData \<Longrightarrow> getData q = Value sp \<Longrightarrow> sc_trackList sp = None \<Longrightarrow>
   \<exists>h' err. fallback_list x h q ctx = (h', [CallGetData q], Inl err)"
  by (simp add: fallback_list_def new_array_def new_playlist_def)

text \<open>Every track that \<open>handle\<close> returns is one it has just created.\<close>

lemma created_normalisers:
  "created (primary_track ctx pl d) (PrimarySong d)"
  "created (scraped_track ctx q sd artists) (ScrapedSong sd)"
  "created (item_track ctx q p m) (ScrapedItem m)"
  by (simp_all add: created_def primary_track_def scraped_track_def item_track_def)

lemma ex_created:
  "\<exists>src. created (primary_track ctx pl d) src"
  "\<exists>src. created (scraped_track ctx q sd artists) src"
  "\<exists>src. created (item_track ctx q p m) src"
  using created_normalisers by blast+

lemma fresh_created:
  assumes "\<And>y. \<exists>src. created (f y) src" and "a \<in> set [length xs ..< length xs + length ys]"
  shows "a < length (xs @ map f ys) \<and> (\<exists>src. created ((xs @ map f ys) ! a) src)"
proof -
  from assms(2) have "length xs \<le> a" and "a - length xs < length ys"
    by auto
  then show ?thesis
    using assms(1) by (auto simp: nth_append)
qed

lemma search_created:
  assumes "handle_search e h q ctx = (h', log, Inr r)"
  shows "i_tracks r < length (h_arrays h') \<and>
    (\<forall>a \<in> set (h_arrays h' ! i_tracks r).
       a < length (h_tracks h') \<and> (\<exists>src. created (h_tracks h' ! a) src))"
proof (cases "e_search e q")
  case (Throws m)
  with assms show ?thesis by (simp add: handle_search_def)
next
  case Falsy
  with assms show ?thesis
    by (auto simp: handle_search_def createResponse_def new_array_def)
next
  case (Value data)
  have c: "\<And>y. \<exists>src. created (primary_track ctx None y) src"
    using created_normalisers(1) by blast
  from Value assms show ?thesis
    using fresh_created [OF c, of _ "h_tracks h" data]
    by (auto simp: handle_search_def createResponse_def new_array_def new_tracks_closed)
qed

lemma song_created:
  assumes "handle_song x h q ctx = (h', log, Inr r)"
  shows "i_tracks r < length (h_arrays h') \<and>
    (\<forall>a \<in> set (h_arrays h' ! i_tracks r).
       a < length (h_tracks h') \<and> (\<exists>src. created (h_tracks h' ! a) src))"
  using assms
  by (auto simp: handle_song_def empty_response_def new_array_def new_track_def ex_created
        split: option.splits)

lemma list_created:
  assumes "handle_list kind get mk x h q ctx = (h', log, Inr r)"
  shows "i_tracks r < length (h_arrays h') \<and>
    (\<forall>a \<in> set (h_arrays h' ! i_tracks r).
       a < length (h_tracks h') \<and> (\<exists>src. created (h_tracks h' ! a) src))"
proof (cases "fst (parse q) = Some kind \<and> (\<exists>sp. get (snd (parse q)) = Value sp)")
  case True
  then obtain sp where p: "parse q = (Some kind, snd (parse q))" and g: "get (snd (parse q)) = Value sp"
    by (metis prod.collapse)
  have c: "\<And>y. \<exists>src. created (primary_track ctx (Some (length (h_playlists h))) y) src"
    using created_normalisers(1) by blast
  from assms show ?thesis
    using fresh_created [OF c, of _ "h_tracks h" "ap_tracks sp"]
    by (auto simp: handle_list_def nth_append
          primary_list_success [where get = get and kind = kind, OF p g])
next
  case False
  then obtain lg where pf: "primary_list kind get mk h q ctx = (lg, None)"
    using primary_list_fails by blast
  obtain h1 lg1 r1 where fb: "fallback_list x h q ctx = (h1, lg1, r1)"
    by (metis prod.collapse)
  with pf assms have eq: "h1 = h'" "r1 = Inr r"
    by (simp_all add: handle_list_def)
  show ?thesis
  proof (cases "priv_lib x")
    case None
    with fb eq show ?thesis by (simp add: fallback_list_def)
  next
    case (Some getData)
    show ?thesis
    proof (cases "catch_noop (getData q)")
      case None
      with fb eq Some show ?thesis
        by (auto simp: fallback_list_empty)
    next
      case (Some sp)
      then have g: "getData q = Value sp"
        by (cases "getData q") simp_all
      show ?thesis
      proof (cases "sc_trackList sp")
        case None
        with fallback_list_broken [OF \<open>priv_lib x = Some getData\<close> g None, of h ctx] fb eq
        show ?thesis by auto
      next
        case (Some items)
        have c: "\<And>y. \<exists>src. created (item_track ctx q (length (h_playlists h)) y) src"
          using created_normalisers(3) by blast
        from fb eq show ?thesis
          using fresh_created [OF c, of _ "h_tracks h" items]
          by (auto simp: fallback_list_success [OF \<open>priv_lib x = Some getData\<close> g Some] nth_append)
      qed
    qed
  qed
qed

lemma handle_created:
  assumes "handle e x h q ctx = (h', log, Inr r)"
  shows "i_tracks r < length (h_arrays h') \<and>
    (\<forall>a \<in> set (h_arrays h' ! i_tracks r).
       a < length (h_tracks h') \<and> (\<exists>src. created (h_tracks h' ! a) src))"
proof (cases "c_type ctx")
  case None
  with assms show ?thesis
    by (auto simp: handle_def empty_response_def new_array_def)
next
  case (Some t)
  with assms show ?thesis
    by (cases t)
      (auto simp: handle_def empty_response_def new_array_def
         dest: search_created song_created list_created)
qed

lemma requestMetadata_source:
  "(\<exists>err. requestMetadata e x src t = Inl err) \<or>
   (\<exists>b. requestMetadata e x src t = Inr \<lparr>m_source = Some src, m_bridge = b\<rparr>)"
  by (simp add: requestMetadata_def split: option.split outcome.split)

text \<open>The sample playlist, resolved by the primary client.\<close>

lemma parse_sample: "parse sample_query = (Some ''playlist'', Some ''abc123'')"
  unfolding sample_query_def by code_simp

lemma handle_sample:
  "handle primary_env x empty_heap sample_query playlist_context =
     (\<lparr>h_tracks = [primary_track playlist_context (Some 0) song_one,
                    primary_track playlist_context (Some 0) song_two],
       h_playlists = [(primary_playlist ''playlist'' sample_query 0 two_songs)\<lparr>pl_tracks := 1\<rparr>],
       h_arrays = [[], [0, 1]]\<rparr>,
      [CallGetPlaylist (Some ''abc123'')],
      Inr \<lparr>i_playlist = Some 0, i_tracks = 1\<rparr>)"
proof -
  have g: "e_getPlaylist primary_env (Some ''abc123'') = Value two_songs"
    by (simp add: primary_env_def silent_env_def)
  have u: "[0 ..< 2] = [0, Suc 0]"
    by (simp add: upt_conv_Cons)
  show ?thesis
    using u by (simp add: handle_def playlist_context_def handle_list_def empty_heap_def two_songs_def
          primary_list_success [where get = "e_getPlaylist primary_env", OF parse_sample g])
qed

section \<open>Resolution without a scraper\<close>

text \<open>
  Claim C1 says that \<open>handle\<close> never throws, whatever options the extractor was built
  with. The code rejects: with a bridge provider among the options \<open>activate\<close> returns
  before \<open>_lib\<close> is assigned, and so it does with a \<open>createStream\<close> function; the song
  branch, like the \<open>catch\<close> block of the playlist branch, then reads \<open>getData\<close> of
  \<open>undefined\<close>. The theorem runs the code there, for every provider \<open>p\<close>, stream function
  \<open>fn\<close>, environment, heap and query.
\<close>

theorem handle_rejects_without_scraper:
  "activate e (new_extractor (no_options\<lparr>bridgeProvider := Some p\<rparr>)) =
     Inr (new_extractor (no_options\<lparr>bridgeProvider := Some p\<rparr>)) \<and>
   handle e (new_extractor (no_options\<lparr>bridgeProvider := Some p\<rparr>)) h q song_context =
     (h, [], Inl (TypeError ''Cannot read properties of undefined (reading getData)'')) \<and>
   handle e (new_extractor (no_options\<lparr>bridgeProvider := Some p\<rparr>)) h ''nothing''
       playlist_context =
     (h, [], Inl (TypeError ''Cannot read properties of undefined (reading getData)'')) \<and>
   activate e (new_extractor (no_options\<lparr>createStream := Some fn\<rparr>)) =
     Inr ((new_extractor (no_options\<lparr>createStream := Some fn\<rparr>))\<lparr>priv_stream := Some fn\<rparr>) \<and>
   handle e ((new_extractor (no_options\<lparr>createStream := Some fn\<rparr>))\<lparr>priv_stream := Some fn\<rparr>)
       h q song_context =
     (h, [], Inl (TypeError ''Cannot read properties of undefined (reading getData)''))"
proof -
  have n: "parse ''nothing'' = (None, None)"
    by code_simp
  show ?thesis
    by (simp add: activate_def new_extractor_def no_options_def handle_def handle_song_def
          song_context_def playlist_context_def handle_list_def primary_list_def
          fallback_list_def n)
qed

section \<open>The order of the two tiers\<close>

text \<open>
  On an extractor that holds the scraper, a playlist or album query goes through the two
  tiers in order: when \<open>parse\<close> gives the matching kind and the primary client answers
  with a payload, the primary client is the only collaborator called and the result has a
  playlist; when the primary lookup throws or gives nothing, the scraper is called after
  it, and when \<open>parse\<close> already misses, the scraper alone is called, in both cases with the
  query string as it came. Then the result is \<open>{playlist: null, tracks: []}\<close> if the scraper
  gives nothing, and it is the scraper's payload, normalised, if the payload has a track
  list. An empty result is returned only when the scraper gave nothing.
\<close>

lemma fallback_order:
  assumes lib: "priv_lib x = Some getData"
    and sel: "(c_type ctx = Some SPOTIFY_PLAYLIST \<and> kind = ''playlist'' \<and>
               get = e_getPlaylist e \<and> mk = CallGetPlaylist) \<or>
              (c_type ctx = Some SPOTIFY_ALBUM \<and> kind = ''album'' \<and>
               get = e_getAlbum e \<and> mk = CallGetAlbum)"
    and par: "parse q = (qt, ident)"
    and run: "handle e x h q ctx = (h', log, res)"
  shows
    "(qt = Some kind \<and> (\<exists>sp. get ident = Value sp) \<longrightarrow>
        log = [mk ident] \<and> (\<exists>r p. res = Inr r \<and> i_playlist r = Some p)) \<and>
     (qt = Some kind \<and> (\<forall>sp. get ident \<noteq> Value sp) \<longrightarrow> log = [mk ident, CallGetData q]) \<and>
     (qt \<noteq> Some kind \<longrightarrow> log = [CallGetData q]) \<and>
     (\<not> (qt = Some kind \<and> (\<exists>sp. get ident = Value sp)) \<and> catch_noop (getData q) = None \<longrightarrow>
        (\<exists>r. res = Inr r \<and> i_playlist r = None \<and> i_tracks r < length (h_arrays h') \<and>
              h_arrays h' ! i_tracks r = [])) \<and>
     (\<forall>sp items.
        \<not> (qt = Some kind \<and> (\<exists>sp. get ident = Value sp)) \<and> getData q = Value sp \<and>
        sc_trackList sp = Some items \<longrightarrow>
        (\<exists>r p. res = Inr r \<and> i_playlist r = Some p \<and> p < length (h_playlists h') \<and>
           pl_rawPlaylist (h_playlists h' ! p) = RawScraped sp \<and>
           i_tracks r = pl_tracks (h_playlists h' ! p) \<and> i_tracks r < length (h_arrays h') \<and>
           map (\<lambda>a. h_tracks h' ! a) (h_arrays h' ! i_tracks r) = map (item_track ctx q p) items)) \<and>
     (\<forall>r. res = Inr r \<and> i_playlist r = None \<longrightarrow>
        catch_noop (getData q) = None \<and> \<not> (qt = Some kind \<and> (\<exists>sp. get ident = Value sp)))"
proof -
  from sel run have hl: "handle_list kind get mk x h q ctx = (h', log, res)"
    by (auto simp: handle_def)
  show ?thesis
  proof (cases "qt = Some kind \<and> (\<exists>sp. get ident = Value sp)")
    case True
    then obtain sp where p: "parse q = (Some kind, ident)" and g: "get ident = Value sp"
      using par by auto
    from hl True show ?thesis
      by (auto simp: handle_list_def primary_list_success [where get = get and kind = kind, OF p g])
  next
    case False
    with par have nf: "\<not> (fst (parse q) = Some kind \<and> (\<exists>sp. get (snd (parse q)) = Value sp))"
      by simp
    obtain h1 lg1 r1 where fb: "fallback_list x h q ctx = (h1, lg1, r1)"
      by (metis prod.collapse)
    from hl fb have eq: "h' = h1" "res = r1"
        "log = (if qt = Some kind then [mk ident] else []) @ lg1"
      using par
      by (auto simp: handle_list_def primary_list_fails [where get = get and kind = kind, OF nf])
    show ?thesis
    proof (cases "catch_noop (getData q)")
      case None
      from fb eq False None show ?thesis
        by (auto simp: fallback_list_empty [OF lib None])
    next
      case (Some sp)
      then have g: "getData q = Value sp"
        by (cases "getData q") simp_all
      show ?thesis
      proof (cases "sc_trackList sp")
        case None
        with fallback_list_broken [OF lib g None, of h ctx] fb eq False g
        show ?thesis by auto
      next
        case (Some items)
        have m: "map (\<lambda>a. (h_tracks h @ map (item_track ctx q (length (h_playlists h))) items) ! a)
                   [length (h_tracks h) ..< length (h_tracks h) + length items] =
                 map (item_track ctx q (length (h_playlists h))) items"
          by (rule map_nth_fresh)
        from fb eq False g Some m show ?thesis
          by (auto simp: fallback_list_success [OF lib g Some] nth_after scraped_playlist_def)
      qed
    qed
  qed
qed

lemma fallback_order_sample:
  "priv_lib scraping_extractor = Some (\<lambda>q. Value scraped_mix) \<and>
   c_type playlist_context = Some SPOTIFY_PLAYLIST \<and>
   parse sample_query = (Some ''playlist'', Some ''abc123'') \<and>
   e_getPlaylist silent_env (Some ''abc123'') = Falsy \<and>
   sc_trackList scraped_mix = Some [item_one] \<and>
   fst (snd (handle silent_env scraping_extractor empty_heap sample_query playlist_context)) =
     [CallGetPlaylist (Some ''abc123''), CallGetData sample_query] \<and>
   (\<exists>r p. snd (snd (handle silent_env scraping_extractor empty_heap sample_query playlist_context)) =
            Inr r \<and> i_playlist r = Some p \<and>
      map (\<lambda>a. h_tracks (fst (handle silent_env scraping_extractor empty_heap sample_query
                                playlist_context)) ! a)
        (h_arrays (fst (handle silent_env scraping_extractor empty_heap sample_query
                          playlist_context)) ! i_tracks r) =
      [item_track playlist_context sample_query p item_one])"
proof -
  have lib: "priv_lib scraping_extractor = Some (\<lambda>q. Value scraped_mix)"
    by (simp add: scraping_extractor_def)
  have c: "c_type playlist_context = Some SPOTIFY_PLAYLIST"
    by (simp add: playlist_context_def)
  have g: "e_getPlaylist silent_env (Some ''abc123'') = Falsy"
    by (simp add: silent_env_def)
  have t: "sc_trackList scraped_mix = Some [item_one]"
    by (simp add: scraped_mix_def)
  have sel: "(c_type playlist_context = Some SPOTIFY_PLAYLIST \<and> ''playlist'' = ''playlist'' \<and>
               e_getPlaylist silent_env = e_getPlaylist silent_env \<and> CallGetPlaylist = CallGetPlaylist) \<or>
              (c_type playlist_context = Some SPOTIFY_ALBUM \<and> ''playlist'' = ''album'' \<and>
               e_getPlaylist silent_env = e_getAlbum silent_env \<and> CallGetPlaylist = CallGetAlbum)"
    using c by simp
  obtain h' lg res where run:
    "handle silent_env scraping_extractor empty_heap sample_query playlist_context = (h', lg, res)"
    by (metis prod.collapse)
  from fallback_order [OF lib sel parse_sample run] lib c parse_sample g t run
  show ?thesis
    by auto
qed

text \<open>
  Claim C2 says that for every playlist or album query a failed primary lookup is followed
  by the scraper, and that a well-formed scraper payload is never lost. The code loses
  it on an extractor built with a bridge provider or a \<open>createStream\<close> function: \<open>activate\<close>
  returns before \<open>_lib\<close> is assigned, so when the primary client has nothing the \<open>catch\<close>
  block reads \<open>getData\<close> of \<open>undefined\<close>; \<open>handle\<close> rejects and the scraper, which knows
  the playlist, is never called. The theorem runs the code there, for every provider
  \<open>p\<close>, stream function \<open>fn\<close> and heap; on the extractor that \<open>activate\<close> builds from no
  options the same query gives the scraper's playlist.
\<close>

theorem fallback_lost_without_scraper:
  "activate scraper_env (new_extractor (no_options\<lparr>bridgeProvider := Some p\<rparr>)) =
     Inr (new_extractor (no_options\<lparr>bridgeProvider := Some p\<rparr>)) \<and>
   e_getData scraper_env sample_query = Value scraped_mix \<and>
   handle scraper_env (new_extractor (no_options\<lparr>bridgeProvider := Some p\<rparr>)) h sample_query
       playlist_context =
     (h, [CallGetPlaylist (Some ''abc123'')],
      Inl (TypeError ''Cannot read properties of undefined (reading getData)'')) \<and>
   handle scraper_env (new_extractor (no_options\<lparr>bridgeProvider := Some p\<rparr>)) h sample_query
       album_context =
     (h, [], Inl (TypeError ''Cannot read properties of undefined (reading getData)'')) \<and>
   activate scraper_env (new_extractor (no_options\<lparr>createStream := Some fn\<rparr>)) =
     Inr ((new_extractor (no_options\<lparr>createStream := Some fn\<rparr>))\<lparr>priv_stream := Some fn\<rparr>) \<and>
   handle scraper_env ((new_extractor (no_options\<lparr>createStream := Some fn\<rparr>))\<lparr>priv_stream := Some fn\<rparr>)
       h sample_query playlist_context =
     (h, [CallGetPlaylist (Some ''abc123'')],
      Inl (TypeError ''Cannot read properties of undefined (reading getData)'')) \<and>
   (\<exists>x. activate scraper_env (new_extractor no_options) = Inr x \<and>
        priv_lib x = Some (e_getData scraper_env) \<and>
        fst (snd (handle scraper_env x h sample_query playlist_context)) =
          [CallGetPlaylist (Some ''abc123''), CallGetData sample_query] \<and>
        (\<exists>r pl. snd (snd (handle scraper_env x h sample_query playlist_context)) = Inr r \<and>
                 i_playlist r = Some pl))"
proof -
  have g: "e_getPlaylist scraper_env (Some ''abc123'') = Falsy"
    by (simp add: scraper_env_def silent_env_def)
  have d: "e_getData scraper_env sample_query = Value scraped_mix"
    by (simp add: scraper_env_def silent_env_def)
  have nf: "\<not> (fst (parse sample_query) = Some ''playlist'' \<and>
               (\<exists>sp. e_getPlaylist scraper_env (snd (parse sample_query)) = Value sp))"
    by (simp add: parse_sample g)
  have na: "\<not> (fst (parse sample_query) = Some ''album'' \<and>
               (\<exists>sp. e_getAlbum scraper_env (snd (parse sample_query)) = Value sp))"
    by (simp add: parse_sample)
  have pl: "\<And>ctx. primary_list ''playlist'' (e_getPlaylist scraper_env) CallGetPlaylist h sample_query
              ctx = ([CallGetPlaylist (Some ''abc123'')], None)"
    using primary_list_fails [where get = "e_getPlaylist scraper_env" and kind = "''playlist''",
            OF nf, of CallGetPlaylist h]
    by (simp add: parse_sample)
  have al: "\<And>ctx. primary_list ''album'' (e_getAlbum scraper_env) CallGetAlbum h sample_query
              ctx = ([], None)"
    using primary_list_fails [where get = "e_getAlbum scraper_env" and kind = "''album''",
            OF na, of CallGetAlbum h]
    by (simp add: parse_sample)
  have broken: "\<And>x. priv_lib x = None \<Longrightarrow>
      handle scraper_env x h sample_query playlist_context =
        (h, [CallGetPlaylist (Some ''abc123'')],
         Inl (TypeError ''Cannot read properties of undefined (reading getData)'')) \<and>
      handle scraper_env x h sample_query album_context =
        (h, [], Inl (TypeError ''Cannot read properties of undefined (reading getData)''))"
    by (simp add: handle_def handle_list_def playlist_context_def album_context_def
          fallback_list_def pl al)
  let ?x = "(new_extractor no_options)\<lparr>priv_stream := Some (\<lambda>u. Value (Readable u)),
              priv_lib := Some (e_getData scraper_env), priv_isYtdl := True\<rparr>"
  have act: "activate scraper_env (new_extractor no_options) = Inr ?x"
    by (simp add: activate_def new_extractor_def no_options_def scraper_env_def silent_env_def)
  have lib: "priv_lib ?x = Some (e_getData scraper_env)"
    by simp
  have t: "sc_trackList scraped_mix = Some [item_one]"
    by (simp add: scraped_mix_def)
  have good: "handle scraper_env ?x h sample_query playlist_context =
      (\<lparr>h_tracks = h_tracks h @ map (item_track playlist_context sample_query (length (h_playlists h)))
                                   [item_one],
        h_playlists = h_playlists h @
          [(scraped_playlist sample_query (length (h_arrays h)) scraped_mix)
             \<lparr>pl_tracks := Suc (length (h_arrays h))\<rparr>],
        h_arrays = h_arrays h @ [[], [length (h_tracks h) ..< length (h_tracks h) + length [item_one]]]\<rparr>,
       [CallGetPlaylist (Some ''abc123''), CallGetData sample_query],
       Inr \<lparr>i_playlist = Some (length (h_playlists h)), i_tracks = Suc (length (h_arrays h))\<rparr>)"
    by (simp add: handle_def handle_list_def playlist_context_def pl
          fallback_list_success [OF lib d t])
  have bp: "priv_lib (new_extractor (no_options\<lparr>bridgeProvider := Some p\<rparr>)) = None"
    by (simp add: new_extractor_def)
  have cs: "priv_lib ((new_extractor (no_options\<lparr>createStream := Some fn\<rparr>))\<lparr>priv_stream := Some fn\<rparr>) = None"
    by (simp add: new_extractor_def)
  have a1: "activate scraper_env (new_extractor (no_options\<lparr>bridgeProvider := Some p\<rparr>)) =
     Inr (new_extractor (no_options\<lparr>bridgeProvider := Some p\<rparr>))"
    by (simp add: activate_def new_extractor_def no_options_def)
  have a2: "activate scraper_env (new_extractor (no_options\<lparr>createStream := Some fn\<rparr>)) =
     Inr ((new_extractor (no_options\<lparr>createStream := Some fn\<rparr>))\<lparr>priv_stream := Some fn\<rparr>)"
    by (simp add: activate_def new_extractor_def no_options_def)
  have ex: "\<exists>x. activate scraper_env (new_extractor no_options) = Inr x \<and>
        priv_lib x = Some (e_getData scraper_env) \<and>
        fst (snd (handle scraper_env x h sample_query playlist_context)) =
          [CallGetPlaylist (Some ''abc123''), CallGetData sample_query] \<and>
        (\<exists>r pl. snd (snd (handle scraper_env x h sample_query playlist_context)) = Inr r \<and>
                 i_playlist r = Some pl)"
    by (rule exI [of _ ?x]) (simp add: act good)
  from a1 a2 d broken [OF bp] broken [OF cs] ex show ?thesis
    by blast
qed

section \<open>A playlist from the primary client\<close>

text \<open>
  Claim C5. For a playlist query that the primary client resolves to a payload of \<open>n\<close>
  tracks, \<open>handle\<close> returns \<open>{playlist, tracks}\<close> where \<open>tracks\<close> is the array that
  \<open>playlist.tracks\<close> refers to, the playlist's id is the payload's, the array holds \<open>n\<close>
  distinct tracks, the \<open>i\<close>-th of which is the normalised \<open>i\<close>-th track of the payload,
  and every track refers to the returned playlist.
\<close>

theorem playlist_from_primary:
  assumes "c_type ctx = Some SPOTIFY_PLAYLIST"
    and "parse q = (Some ''playlist'', ident)"
    and "e_getPlaylist e ident = Value sp"
  shows "\<exists>h' r p arr.
      handle e x h q ctx = (h', [CallGetPlaylist ident], Inr r) \<and>
      i_playlist r = Some p \<and> p < length (h_playlists h') \<and>
      i_tracks r = pl_tracks (h_playlists h' ! p) \<and>
      i_tracks r < length (h_arrays h') \<and> h_arrays h' ! i_tracks r = arr \<and>
      pl_id (h_playlists h' ! p) = Some (ap_id sp) \<and>
      length arr = length (ap_tracks sp) \<and> distinct arr \<and>
      list_all (\<lambda>a. a < length (h_tracks h')) arr \<and>
      map (\<lambda>a. h_tracks h' ! a) arr = map (primary_track ctx (Some p)) (ap_tracks sp) \<and>
      map (\<lambda>a. metadata_source (h_tracks h' ! a)) arr =
        map (\<lambda>d. Some (PrimarySong d)) (ap_tracks sp) \<and>
      list_all (\<lambda>a. t_playlist (h_tracks h' ! a) = Some p) arr"
proof -
  let ?n = "length (h_tracks h)"
  let ?p = "length (h_playlists h)"
  let ?arr = "[?n ..< ?n + length (ap_tracks sp)]"
  let ?ts = "h_tracks h @ map (primary_track ctx (Some ?p)) (ap_tracks sp)"
  have m: "map (\<lambda>a. ?ts ! a) ?arr = map (primary_track ctx (Some ?p)) (ap_tracks sp)"
    by (rule map_nth_fresh)
  have "map (\<lambda>a. metadata_source (?ts ! a)) ?arr =
          map metadata_source (map (\<lambda>a. ?ts ! a) ?arr)"
    by simp
  also have "\<dots> = map (\<lambda>d. Some (PrimarySong d)) (ap_tracks sp)"
    unfolding m by (simp add: metadata_source_def primary_track_def)
  finally have s: "map (\<lambda>a. metadata_source (?ts ! a)) ?arr =
      map (\<lambda>d. Some (PrimarySong d)) (ap_tracks sp)" .
  have "map (\<lambda>a. t_playlist (?ts ! a)) ?arr = map t_playlist (map (\<lambda>a. ?ts ! a) ?arr)"
    by simp
  also have "\<dots> = map (\<lambda>d. Some ?p) (ap_tracks sp)"
    unfolding m by (simp add: primary_track_def)
  finally have "\<forall>v \<in> set (map (\<lambda>a. t_playlist (?ts ! a)) ?arr). v = Some ?p"
    by auto
  then have pl: "list_all (\<lambda>a. t_playlist (?ts ! a) = Some ?p) ?arr"
    by (simp add: list_all_iff)
  have lt: "list_all (\<lambda>a. a < length ?ts) ?arr"
    by (simp add: list_all_iff)
  from assms m s pl lt show ?thesis
    by (simp add: handle_def handle_list_def primary_playlist_def nth_after
          primary_list_success [where get = "e_getPlaylist e" and kind = "''playlist''"])
qed

theorem playlist_from_primary_witness:
  "c_type playlist_context = Some SPOTIFY_PLAYLIST \<and>
   parse sample_query = (Some ''playlist'', Some ''abc123'') \<and>
   e_getPlaylist primary_env (Some ''abc123'') = Value two_songs \<and>
   (\<exists>h' r p arr.
      handle primary_env ytdl_extractor empty_heap sample_query playlist_context =
        (h', [CallGetPlaylist (Some ''abc123'')], Inr r) \<and>
      i_playlist r = Some p \<and> i_tracks r = pl_tracks (h_playlists h' ! p) \<and>
      h_arrays h' ! i_tracks r = arr \<and>
      pl_id (h_playlists h' ! p) = Some ''abc123'' \<and> length arr = 2 \<and>
      map (\<lambda>a. h_tracks h' ! a) arr =
        [primary_track playlist_context (Some p) song_one,
         primary_track playlist_context (Some p) song_two] \<and>
      list_all (\<lambda>a. t_playlist (h_tracks h' ! a) = Some p) arr)"
proof -
  have c: "c_type playlist_context = Some SPOTIFY_PLAYLIST"
    by (simp add: playlist_context_def)
  have g: "e_getPlaylist primary_env (Some ''abc123'') = Value two_songs"
    by (simp add: primary_env_def silent_env_def)
  have t: "ap_tracks two_songs = [song_one, song_two]" "ap_id two_songs = ''abc123''"
    by (simp_all add: two_songs_def)
  from playlist_from_primary [OF c parse_sample g, of ytdl_extractor empty_heap]
  show ?thesis
    unfolding t using c parse_sample g by auto
qed

section \<open>The deferred metadata resolver\<close>

text \<open>
  Claim C9 says that the resolver of a track always returns an envelope. It does not: it
  awaits the bridge collaborator and catches nothing, so when the provider's \<open>resolve\<close>
  rejects, the resolver of a track that \<open>handle\<close> has just returned rejects as well. When
  \<open>resolve\<close> answers with nothing, the resolver reads \<open>data\<close> of \<open>undefined\<close> and rejects too.
\<close>

theorem resolver_rejects:
  "handle primary_env (new_extractor (no_options\<lparr>bridgeProvider := Some rejecting_provider\<rparr>))
       empty_heap sample_query playlist_context =
     (\<lparr>h_tracks = [primary_track playlist_context (Some 0) song_one,
                    primary_track playlist_context (Some 0) song_two],
       h_playlists = [(primary_playlist ''playlist'' sample_query 0 two_songs)\<lparr>pl_tracks := 1\<rparr>],
       h_arrays = [[], [0, 1]]\<rparr>,
      [CallGetPlaylist (Some ''abc123'')],
      Inr \<lparr>i_playlist = Some 0, i_tracks = 1\<rparr>) \<and>
   t_requestMetadata (primary_track playlist_context (Some 0) song_one) =
     Some (PrimarySong song_one) \<and>
   requestMetadata primary_env
       (new_extractor (no_options\<lparr>bridgeProvider := Some rejecting_provider\<rparr>))
       (PrimarySong song_one) (primary_track playlist_context (Some 0) song_one) =
     Inl (Rejected ''unavailable'') \<and>
   requestMetadata primary_env
       (new_extractor (no_options\<lparr>bridgeProvider := Some silent_provider\<rparr>))
       (PrimarySong song_one) (primary_track playlist_context (Some 0) song_one) =
     Inl (TypeError ''Cannot read properties of undefined (reading data)'')"
  using handle_sample [of "new_extractor (no_options\<lparr>bridgeProvider := Some rejecting_provider\<rparr>)"]
  by (simp add: requestMetadata_def new_extractor_def no_options_def rejecting_provider_def
        silent_provider_def primary_track_def)

text \<open>
  Claim C9, amended. Every track that \<open>handle\<close> returns has an envelope with no bridge and
  with the payload it was built from as source, and its resolver has captured that payload.
  Whatever the extractor's options, the collaborators' answers and the state of the track
  at an invocation, an invocation that returns gives an envelope whose source is that
  payload, and it does return whenever the bridge collaborator answers: when the
  provider's \<open>resolve\<close> gives a \<open>{data}\<close> object, and, without a provider, when
  \<open>pullYTMetadata\<close> resolves. The resolver writes nothing to the track, so the source in
  the track's envelope stays.
\<close>

theorem resolver_keeps_source:
  assumes "handle e x h q ctx = (h', log, Inr r)"
    and "a \<in> set (h_arrays h' ! i_tracks r)"
  shows "\<exists>src. a < length (h_tracks h') \<and>
      t_metadata (h_tracks h' ! a) = Some \<lparr>m_source = Some src, m_bridge = None\<rparr> \<and>
      t_requestMetadata (h_tracks h' ! a) = Some src \<and>
      (\<forall>e' x' t'.
         (\<exists>err. requestMetadata e' x' src t' = Inl err) \<or>
         (\<exists>b. requestMetadata e' x' src t' = Inr \<lparr>m_source = Some src, m_bridge = b\<rparr>)) \<and>
      (\<forall>e' x' t'.
         bridgeProvider (options x') = None \<and> (\<forall>msg. e_pullYTMetadata e' t' \<noteq> Throws msg) \<longrightarrow>
         (\<exists>b. requestMetadata e' x' src t' = Inr \<lparr>m_source = Some src, m_bridge = b\<rparr>)) \<and>
      (\<forall>e' x' t' p d.
         bridgeProvider (options x') = Some p \<and> bp_resolve p t' = Value d \<longrightarrow>
         requestMetadata e' x' src t' = Inr \<lparr>m_source = Some src, m_bridge = d\<rparr>)"
proof -
  from handle_created [OF assms(1)] assms(2)
  obtain src where lt: "a < length (h_tracks h')" and c: "created (h_tracks h' ! a) src"
    by blast
  have 1: "\<forall>e' x' t'.
         (\<exists>err. requestMetadata e' x' src t' = Inl err) \<or>
         (\<exists>b. requestMetadata e' x' src t' = Inr \<lparr>m_source = Some src, m_bridge = b\<rparr>)"
    using requestMetadata_source by blast
  have 2: "\<forall>e' x' t'.
         bridgeProvider (options x') = None \<and> (\<forall>msg. e_pullYTMetadata e' t' \<noteq> Throws msg) \<longrightarrow>
         (\<exists>b. requestMetadata e' x' src t' = Inr \<lparr>m_source = Some src, m_bridge = b\<rparr>)"
    by (auto simp: requestMetadata_def split: outcome.split)
  have 3: "\<forall>e' x' t' p d.
         bridgeProvider (options x') = Some p \<and> bp_resolve p t' = Value d \<longrightarrow>
         requestMetadata e' x' src t' = Inr \<lparr>m_source = Some src, m_bridge = d\<rparr>"
    by (simp add: requestMetadata_def)
  from lt c 1 2 3 show ?thesis
    unfolding created_def by blast
qed

theorem resolver_keeps_source_witness:
  "handle primary_env ytdl_extractor empty_heap sample_query playlist_context =
     (\<lparr>h_tracks = [primary_track playlist_context (Some 0) song_one,
                    primary_track playlist_context (Some 0) song_two],
       h_playlists = [(primary_playlist ''playlist'' sample_query 0 two_songs)\<lparr>pl_tracks := 1\<rparr>],
       h_arrays = [[], [0, 1]]\<rparr>,
      [CallGetPlaylist (Some ''abc123'')],
      Inr \<lparr>i_playlist = Some 0, i_tracks = 1\<rparr>) \<and>
   t_metadata (primary_track playlist_context (Some 0) song_two) =
     Some \<lparr>m_source = Some (PrimarySong song_two), m_bridge = None\<rparr> \<and>
   requestMetadata silent_env ytdl_extractor (PrimarySong song_two)
       (primary_track playlist_context (Some 0) song_two) =
     Inr \<lparr>m_source = Some (PrimarySong song_two), m_bridge = None\<rparr>"
proof -
  have a: "1 \<in> set (h_arrays \<lparr>h_tracks = [primary_track playlist_context (Some 0) song_one,
                    primary_track playlist_context (Some 0) song_two],
       h_playlists = [(primary_playlist ''playlist'' sample_query 0 two_songs)\<lparr>pl_tracks := 1\<rparr>],
       h_arrays = [[], [0, 1]]\<rparr> ! i_tracks \<lparr>i_playlist = Some 0, i_tracks = 1\<rparr>)"
    by simp
  from resolver_keeps_source [OF handle_sample a]
  have "t_metadata (primary_track playlist_context (Some 0) song_two) =
     Some \<lparr>m_source = Some (PrimarySong song_two), m_bridge = None\<rparr>"
    by (auto simp: primary_track_def)
  moreover have "requestMetadata silent_env ytdl_extractor (PrimarySong song_two)
       (primary_track playlist_context (Some 0) song_two) =
     Inr \<lparr>m_source = Some (PrimarySong song_two), m_bridge = None\<rparr>"
    by (simp add: requestMetadata_def ytdl_extractor_def no_options_def silent_env_def)
  ultimately show ?thesis
    using handle_sample by simp
qed

section \<open>Normalisation\<close>

text \<open>
  Claim C8. A payload without an artist gives a track whose author is
  \<open>Unknown Artist\<close>, and a payload without a thumbnail gives a track whose thumbnail is
  the placeholder URL, in each of the three normalisers; a scraped track-list item has no
  thumbnail at all. The formatter is a total function, applied to 0 when the payload has
  no duration, and a negative duration formats as 0 does.
\<close>

theorem missing_fields_defaults:
  "(as_artist d = None \<longrightarrow> t_author (primary_track ctx pl d) = ''Unknown Artist'') \<and>
   (as_thumbnail d = None \<longrightarrow>
      t_thumbnail (primary_track ctx pl d) =
        ''https://www.scdn.co/i/_global/twitter_card-default.jpg'') \<and>
   (as_duration d = None \<longrightarrow>
      t_duration (primary_track ctx pl d) = buildTimeCode (parseMS 0)) \<and>
   ((case artists of [] \<Rightarrow> True | a # _ \<Rightarrow> a = None) \<longrightarrow>
      t_author (scraped_track ctx q sd artists) = ''Unknown Artist'') \<and>
   (sc_cover sd = None \<longrightarrow>
      t_thumbnail (scraped_track ctx q sd artists) =
        ''https://www.scdn.co/i/_global/twitter_card-default.jpg'') \<and>
   (sc_duration sd = None \<and> sc_maxDuration sd = None \<longrightarrow>
      t_duration (scraped_track ctx q sd artists) = buildTimeCode (parseMS 0)) \<and>
   (si_subtitle m = None \<longrightarrow> t_author (item_track ctx q p m) = ''Unknown Artist'') \<and>
   t_thumbnail (item_track ctx q p m) =
     ''https://www.scdn.co/i/_global/twitter_card-default.jpg'' \<and>
   t_duration (item_track ctx q p m) = buildTimeCode (parseMS (si_duration m)) \<and>
   (ms \<le> 0 \<longrightarrow> buildTimeCode (parseMS ms) = buildTimeCode (parseMS 0))"
  by (auto simp: primary_track_def scraped_track_def item_track_def unknown_artist_def
        default_thumbnail_def truthy_or_def parseMS_def max_def split: list.split)

theorem missing_fields_defaults_witness:
  "as_artist song_two = None \<and> as_thumbnail song_two = None \<and> as_duration song_two = None \<and>
   t_author (primary_track song_context None song_two) = ''Unknown Artist'' \<and>
   t_thumbnail (primary_track song_context None song_two) =
     ''https://www.scdn.co/i/_global/twitter_card-default.jpg'' \<and>
   t_duration (primary_track song_context None song_two) = buildTimeCode (parseMS 0) \<and>
   sc_cover bare_song = None \<and> sc_duration bare_song = None \<and> sc_maxDuration bare_song = None \<and>
   t_author (scraped_track song_context sample_query bare_song []) = ''Unknown Artist'' \<and>
   t_thumbnail (scraped_track song_context sample_query bare_song []) =
     ''https://www.scdn.co/i/_global/twitter_card-default.jpg'' \<and>
   t_duration (scraped_track song_context sample_query bare_song []) = buildTimeCode (parseMS 0) \<and>
   si_subtitle bare_item = None \<and>
   t_author (item_track song_context sample_query 0 bare_item) = ''Unknown Artist'' \<and>
   buildTimeCode (parseMS (- 5)) = buildTimeCode (parseMS 0)"
proof -
  have a: "as_artist song_two = None \<and> as_thumbnail song_two = None \<and> as_duration song_two = None"
    by (simp add: song_two_def)
  have b: "sc_cover bare_song = None \<and> sc_duration bare_song = None \<and> sc_maxDuration bare_song = None"
    by (simp add: bare_song_def)
  have c: "si_subtitle bare_item = None"
    by (simp add: bare_item_def)
  from a b c
    missing_fields_defaults [where d = song_two and ctx = song_context and pl = None
      and artists = "[]" and q = sample_query and sd = bare_song and m = bare_item and p = 0
      and ms = "- 5"]
  show ?thesis
    by simp
qed

text \<open>
  Claim C4 says that a primary payload and a scraped payload of the same track give tracks
  that are equal in every canonical field. They are not: the primary normaliser takes the
  thumbnail from the payload, and a scraped track-list item has none, so its track has
  the placeholder.
\<close>

theorem normalisers_disagree:
  "same_track song_one item_one \<and>
   t_thumbnail (primary_track playlist_context (Some 0) song_one) \<noteq>
     t_thumbnail (item_track playlist_context sample_query 0 item_one)"
  by (simp add: same_track_def song_one_def item_one_def primary_track_def item_track_def
        truthy_or_def default_thumbnail_def)

text \<open>
  Claim C4, amended. For a primary payload and a scraped item that agree on title, author
  and duration, the two tracks agree on title, author, duration, views, source and query
  type (and on requester and playlist). The thumbnail is the payload's on the primary
  path, the placeholder when the payload has none, and always the placeholder on the
  scraped path; so the thumbnails agree exactly when the primary payload has none or has
  the placeholder itself. Nothing is said of description and URL.
\<close>

theorem normalisers_agree:
  "same_track d m \<Longrightarrow>
   t_title (primary_track ctx (Some p) d) = t_title (item_track ctx q p m) \<and>
   t_author (primary_track ctx (Some p) d) = t_author (item_track ctx q p m) \<and>
   t_duration (primary_track ctx (Some p) d) = t_duration (item_track ctx q p m) \<and>
   t_views (primary_track ctx (Some p) d) = t_views (item_track ctx q p m) \<and>
   t_source (primary_track ctx (Some p) d) = t_source (item_track ctx q p m) \<and>
   t_queryType (primary_track ctx (Some p) d) = t_queryType (item_track ctx q p m) \<and>
   t_requestedBy (primary_track ctx (Some p) d) = t_requestedBy (item_track ctx q p m) \<and>
   t_playlist (primary_track ctx (Some p) d) = t_playlist (item_track ctx q p m) \<and>
   t_thumbnail (primary_track ctx (Some p) d) =
     (if truthy (as_thumbnail d) then the (as_thumbnail d)
      else ''https://www.scdn.co/i/_global/twitter_card-default.jpg'') \<and>
   t_thumbnail (item_track ctx q p m) = ''https://www.scdn.co/i/_global/twitter_card-default.jpg'' \<and>
   (t_thumbnail (primary_track ctx (Some p) d) = t_thumbnail (item_track ctx q p m) \<longleftrightarrow>
      \<not> truthy (as_thumbnail d) \<or>
      as_thumbnail d = Some ''https://www.scdn.co/i/_global/twitter_card-default.jpg'')"
  by (cases "as_thumbnail d")
     (auto simp: same_track_def primary_track_def item_track_def truthy_or_def
        default_thumbnail_def)

theorem normalisers_agree_witness:
  "same_track song_one item_one \<and>
   t_title (primary_track playlist_context (Some 0) song_one) =
     t_title (item_track playlist_context sample_query 0 item_one) \<and>
   t_author (primary_track playlist_context (Some 0) song_one) =
     t_author (item_track playlist_context sample_query 0 item_one) \<and>
   t_duration (primary_track playlist_context (Some 0) song_one) =
     t_duration (item_track playlist_context sample_query 0 item_one)"
proof -
  have s: "same_track song_one item_one"
    by (simp add: same_track_def song_one_def item_one_def)
  from normalisers_agree [OF s, of playlist_context 0 sample_query] s show ?thesis
    by simp
qed

section \<open>Streaming\<close>

text \<open>
  Claim C6. When the bridge provider resolves to nothing, and when the default bridging
  search is made and yields no candidate (nothing, or metadata without a URL), \<open>stream\<close>
  rejects with an \<open>Error\<close> and returns no handle. The search is made exactly when there is
  no bridge provider, the stream function is the loaded library's and the track's raw URL
  is not directly streamable; the provider is asked exactly when there is one.
\<close>

theorem stream_fails_loudly:
  "(bridgeProvider (options x) = Some p \<and> bp_resolve p info = Falsy \<longrightarrow>
      snd (snd (stream e x info)) = Inl (Error ''Failed to bridge this track'')) \<and>
   (bridgeProvider (options x) = None \<and> priv_stream x = Some s \<and> priv_isYtdl x \<and>
    \<not> e_validateURL e (t_raw_url info) \<and>
    (e_pullYTMetadata e info = Falsy \<or>
     (\<exists>m. e_pullYTMetadata e info = Value m \<and> \<not> truthy (b_url m))) \<longrightarrow>
      snd (snd (stream e x info)) = Inl (Error ''Failed to fetch resources for ytdl streaming'')) \<and>
   (CallPullYTMetadata \<in> set (fst (snd (stream e x info))) \<longleftrightarrow>
      bridgeProvider (options x) = None \<and> priv_stream x \<noteq> None \<and> priv_isYtdl x \<and>
      \<not> e_validateURL e (t_raw_url info)) \<and>
   (CallResolve \<in> set (fst (snd (stream e x info))) \<longleftrightarrow> bridgeProvider (options x) \<noteq> None)"
  by (auto simp: stream_def Let_def split: option.split outcome.split)

theorem stream_fails_loudly_witness:
  "bridgeProvider (options ytdl_extractor) = None \<and>
   priv_stream ytdl_extractor = Some (\<lambda>u. Value (Readable u)) \<and>
   priv_isYtdl ytdl_extractor \<and>
   \<not> e_validateURL silent_env (t_raw_url (primary_track song_context None song_one)) \<and>
   e_pullYTMetadata silent_env (primary_track song_context None song_one) = Falsy \<and>
   snd (snd (stream silent_env ytdl_extractor (primary_track song_context None song_one))) =
     Inl (Error ''Failed to fetch resources for ytdl streaming'') \<and>
   bridgeProvider (options (new_extractor (no_options\<lparr>bridgeProvider := Some silent_provider\<rparr>))) =
     Some silent_provider \<and>
   bp_resolve silent_provider (primary_track song_context None song_one) = Falsy \<and>
   snd (snd (stream silent_env (new_extractor (no_options\<lparr>bridgeProvider := Some silent_provider\<rparr>))
               (primary_track song_context None song_one))) =
     Inl (Error ''Failed to bridge this track'')"
  using stream_fails_loudly [where x = ytdl_extractor
          and info = "primary_track song_context None song_one" and e = silent_env
          and s = "\<lambda>u. Value (Readable u)"]
        stream_fails_loudly [where
          x = "new_extractor (no_options\<lparr>bridgeProvider := Some silent_provider\<rparr>)"
          and p = silent_provider and info = "primary_track song_context None song_one"
          and e = silent_env]
  by (simp add: ytdl_extractor_def no_options_def silent_env_def silent_provider_def
        new_extractor_def)

text \<open>
  Claim C7. \<open>stream\<close> leaves every field of the track as it was, but for the metadata
  envelope, of which only the bridge changes (the source stays), and the slot \<open>raw.url\<close>;
  this holds on the bridge provider's path and on the default one, and when \<open>stream\<close>
  fails.
\<close>

theorem stream_frame:
  "t_title (fst (stream e x info)) = t_title info \<and>
   t_description (fst (stream e x info)) = t_description info \<and>
   t_author (fst (stream e x info)) = t_author info \<and>
   t_url (fst (stream e x info)) = t_url info \<and>
   t_thumbnail (fst (stream e x info)) = t_thumbnail info \<and>
   t_duration (fst (stream e x info)) = t_duration info \<and>
   t_views (fst (stream e x info)) = t_views info \<and>
   t_source (fst (stream e x info)) = t_source info \<and>
   t_queryType (fst (stream e x info)) = t_queryType info \<and>
   metadata_source (fst (stream e x info)) = metadata_source info \<and>
   t_requestedBy (fst (stream e x info)) = t_requestedBy info \<and>
   t_playlist (fst (stream e x info)) = t_playlist info \<and>
   t_requestMetadata (fst (stream e x info)) = t_requestMetadata info \<and>
   t_extractor (fst (stream e x info)) = t_extractor info \<and>
   fst (stream e x info) =
     info\<lparr>t_metadata := t_metadata (fst (stream e x info)),
          t_raw_url := t_raw_url (fst (stream e x info))\<rparr>"
  by (simp add: stream_def with_bridge_def metadata_source_def Let_def
           split: option.split outcome.split)


end
